theory Spec2Isabelle
  imports Main
begin

section \<open>Crontab discovery (crontab/crontabs.py)\<close>

text \<open>
  The module discovers the crontabs of a Unix system.  Three strategies
  (\<open>UserSpool\<close>, \<open>SystemTab\<close>, \<open>AnaCronTab\<close>) each turn a filesystem
  location into a list of \<open>CronTab\<close> objects; the aggregator \<open>CronTabs\<close>
  collects them and offers a merged view \<open>all\<close>.

  The Python objects are mutable and shared: the merged view holds the very
  job objects of the owned tabs, and a job knows the tab it belongs to.  The
  model therefore uses an explicit store.  A job or a tab is referred to by
  its address (a natural number); the store maps addresses to records and
  allocates addresses in increasing order.

  A call that raises returns the exception as a value (\<open>Inl\<close>); what the
  store holds after an exception is not modelled.
\<close>

subsection \<open>Values\<close>

type_synonym path = string

text \<open>The exceptions the module can meet.\<close>

datatype error = OSError | KeyError | IndexError

text \<open>
  The \<open>user\<close> argument of \<open>CronTab(user=...)\<close>: \<open>None\<close> (the default),
  \<open>False\<close> (a system tab), \<open>True\<close> (the invoking user) or a user name.
\<close>

datatype tab_user = UserNone | UserFalse | UserTrue | UserName string

text \<open>The five schedule fields of a job, kept as text.\<close>

record schedule =
  minute :: string
  hour :: string
  dom :: string
  month :: string
  dow :: string

text \<open>A job (\<open>CronItem\<close>): \<open>cron\<close> is the address of the tab it belongs to.\<close>

record job =
  command :: string
  user :: "string option"
  comment :: string
  slices :: schedule
  cron :: nat

text \<open>A tab (\<open>CronTab\<close>): \<open>crons\<close> are the addresses of its jobs, in order.\<close>

record crontab =
  tuser :: tab_user
  tabfile :: "path option"
  crons :: "nat list"

record heap =
  job_at :: "nat \<Rightarrow> job"
  tab_at :: "nat \<Rightarrow> crontab"
  njobs :: nat
  ntabs :: nat

text \<open>
  What the module reads from its surroundings during one discovery pass: the
  calls of \<open>os\<close>, \<open>os.path\<close> and \<open>pwd\<close>, and what the crontab engine
  finds when it opens a tab.  \<open>tab_truth\<close> is the truth value Python gives a
  \<open>CronTab\<close> object in \<open>if tab := ...\<close>.  The class is defined in
  crontab.py, outside this module, so the truth value is a parameter; in
  python-crontab \<open>CronTab.__len__\<close> is the number of jobs, which makes a tab
  with no job false.
\<close>

record fs =
  os_listdir :: "path \<Rightarrow> error + string list"
  os_isdir :: "path \<Rightarrow> bool"
  os_isfile :: "path \<Rightarrow> bool"
  os_stat_uid :: "path \<Rightarrow> error + nat"
  getpwuid_name :: "nat \<Rightarrow> error + string"
  os_access_x :: "path \<Rightarrow> bool"
  whoami :: string
  crontab_l :: "string \<Rightarrow> error + job list"
  read_tabfile :: "path \<Rightarrow> error + job list"
  tab_truth :: "crontab \<Rightarrow> bool"

subsection \<open>Strings and paths\<close>

text \<open>\<open>os.path.join(a, b)\<close> of posixpath, for two components.\<close>

definition path_join :: "path \<Rightarrow> string \<Rightarrow> path" where
  "path_join a b =
     (if b \<noteq> [] \<and> hd b = CHR ''/'' then b
      else if a = [] \<or> last a = CHR ''/'' then a @ b
      else a @ ''/'' @ b)"

text \<open>\<open>s.split(c)\<close> for a one-character separator: never the empty list.\<close>

fun split_on :: "char \<Rightarrow> string \<Rightarrow> string list" where
  "split_on c [] = [[]]"
| "split_on c (x # xs) =
     (if x = c then [] # split_on c xs
      else (case split_on c xs of
              [] \<Rightarrow> [[x]]
            | w # ws \<Rightarrow> (x # w) # ws))"

text \<open>\<open>loc.split('.')[-1]\<close>\<close>

definition last_segment :: "path \<Rightarrow> string" where
  "last_segment loc = last (split_on CHR ''.'' loc)"

fun startswith :: "string \<Rightarrow> string \<Rightarrow> bool" where
  "startswith s [] = True"
| "startswith [] (c # p) = False"
| "startswith (x # s) (c # p) = (x = c \<and> startswith s p)"

text \<open>\<open>p in s\<close> for two strings: \<open>p\<close> occurs in \<open>s\<close>.\<close>

fun str_contains :: "string \<Rightarrow> string \<Rightarrow> bool" where
  "str_contains [] p = (p = [])"
| "str_contains (x # s) p = (startswith (x # s) p \<or> str_contains s p)"

subsection \<open>The crontab engine\<close>

text \<open>
  Modelled from the spec: class \<open>CronTab\<close> and class \<open>CronItem\<close> of
  crontab.py, which this module imports and which is not among the sources.
  The spec gives the engine as a contract: open a tab for a user or for a
  file, iterate its jobs in file order, append a new job to a tab, set a
  job's comment, copy every schedule field from another job, delete a job
  from the tab it lives in, find the jobs of a tab whose command contains a
  text.  Each operation below is that contract on the store.
\<close>

text \<open>Modelled from the spec: a new job object (\<open>CronItem\<close>), at the next free address.\<close>

definition alloc_job :: "job \<Rightarrow> heap \<Rightarrow> nat \<times> heap" where
  "alloc_job j h =
     (njobs h, h\<lparr>job_at := (job_at h)(njobs h := j), njobs := Suc (njobs h)\<rparr>)"

text \<open>Modelled from the spec: \<open>CronTab.append(item)\<close>, the job goes last.\<close>

definition tab_append :: "nat \<Rightarrow> nat \<Rightarrow> heap \<Rightarrow> heap" where
  "tab_append t j h =
     h\<lparr>tab_at := (tab_at h)(t := (tab_at h t)\<lparr>crons := crons (tab_at h t) @ [j]\<rparr>)\<rparr>"

text \<open>Modelled from the spec: a new tab object (\<open>CronTab\<close>) with no job yet.\<close>

definition alloc_tab :: "tab_user \<Rightarrow> path option \<Rightarrow> heap \<Rightarrow> nat \<times> heap" where
  "alloc_tab u f h =
     (ntabs h,
      h\<lparr>tab_at := (tab_at h)(ntabs h := \<lparr>tuser = u, tabfile = f, crons = []\<rparr>),
        ntabs := Suc (ntabs h)\<rparr>)"

text \<open>
  Modelled from the spec: the lines the engine read become jobs of the tab, in
  file order (\<open>TabHandle.jobs()\<close>).
\<close>

fun load_lines :: "nat \<Rightarrow> job list \<Rightarrow> heap \<Rightarrow> heap" where
  "load_lines t [] h = h"
| "load_lines t (l # ls) h =
     (case alloc_job (l\<lparr>cron := t\<rparr>) h of
        (j, h1) \<Rightarrow> load_lines t ls (tab_append t j h1))"

text \<open>
  Modelled from the spec: what the constructor reads.  A file is read when one
  is given, else the crontab of the user when the tab has one; reading can
  fail (\<open>NotFound\<close>, \<open>ParseError\<close>, \<open>IOError\<close> of the contract).
\<close>

definition read_lines :: "fs \<Rightarrow> tab_user \<Rightarrow> path option \<Rightarrow> error + job list" where
  "read_lines env u f =
     (case f of
        Some p \<Rightarrow> read_tabfile env p
      | None \<Rightarrow>
          (case u of
             UserName n \<Rightarrow> crontab_l env n
           | UserTrue \<Rightarrow> crontab_l env (whoami env)
           | UserFalse \<Rightarrow> Inr []
           | UserNone \<Rightarrow> Inr []))"

text \<open>
  Modelled from the spec: the constructor \<open>CronTab(user=u, tabfile=f)\<close>
  (\<open>openForFile\<close>, \<open>openForUser\<close>).
\<close>

definition CronTab :: "fs \<Rightarrow> tab_user \<Rightarrow> path option \<Rightarrow> heap \<Rightarrow> error + (nat \<times> heap)" where
  "CronTab env u f h =
     (case read_lines env u f of
        Inl e \<Rightarrow> Inl e
      | Inr ls \<Rightarrow>
          (case alloc_tab u f h of (t, h1) \<Rightarrow> Inr (t, load_lines t ls h1)))"

text \<open>What a tab is bound to: its user and its file.\<close>

definition binding :: "heap \<Rightarrow> nat \<Rightarrow> tab_user \<times> path option" where
  "binding h t = (tuser (tab_at h t), tabfile (tab_at h t))"

text \<open>Modelled from the spec: the schedule of a job nobody has set yet, \<open>* * * * *\<close>.\<close>

definition every_minute :: schedule where
  "every_minute = \<lparr>minute = ''*'', hour = ''*'', dom = ''*'', month = ''*'', dow = ''*''\<rparr>"

text \<open>Modelled from the spec: \<open>tab.new(command=c, user=u)\<close>, appended to the tab.\<close>

definition new :: "nat \<Rightarrow> string \<Rightarrow> string option \<Rightarrow> heap \<Rightarrow> nat \<times> heap" where
  "new t c u h =
     (case alloc_job \<lparr>command = c, user = u, comment = [], slices = every_minute, cron = t\<rparr> h of
        (j, h1) \<Rightarrow> (j, tab_append t j h1))"

text \<open>Modelled from the spec: \<open>job.set_comment(text)\<close>.\<close>

definition set_comment :: "nat \<Rightarrow> string \<Rightarrow> heap \<Rightarrow> heap" where
  "set_comment j c h = h\<lparr>job_at := (job_at h)(j := (job_at h j)\<lparr>comment := c\<rparr>)\<rparr>"

text \<open>Modelled from the spec: \<open>job.setall(other)\<close> copies every schedule field.\<close>

definition setall :: "nat \<Rightarrow> nat \<Rightarrow> heap \<Rightarrow> heap" where
  "setall j other h =
     h\<lparr>job_at := (job_at h)(j := (job_at h j)\<lparr>slices := slices (job_at h other)\<rparr>)\<rparr>"

text \<open>The assignment \<open>job.user = u\<close> of \<open>CronTabs.all\<close>.\<close>

definition set_user :: "nat \<Rightarrow> string option \<Rightarrow> heap \<Rightarrow> heap" where
  "set_user j u h = h\<lparr>job_at := (job_at h)(j := (job_at h j)\<lparr>user := u\<rparr>)\<rparr>"

text \<open>
  Modelled from the spec: \<open>job.delete()\<close> removes the job from the tab it
  lives in (\<open>job.cron\<close>); it no longer appears there.
\<close>

definition delete :: "nat \<Rightarrow> heap \<Rightarrow> heap" where
  "delete j h =
     (let t = cron (job_at h j)
      in h\<lparr>tab_at := (tab_at h)(t := (tab_at h t)\<lparr>crons := removeAll j (crons (tab_at h t))\<rparr>)\<rparr>)"

text \<open>
  Modelled from the spec: \<open>tab.find_command(text)\<close>, the jobs of the tab
  whose command contains the text, in the tab's order.
\<close>

definition find_command :: "nat \<Rightarrow> string \<Rightarrow> heap \<Rightarrow> nat list" where
  "find_command t pat h =
     filter (\<lambda>j. str_contains (command (job_at h j)) pat) (crons (tab_at h t))"

text \<open>
  Modelled from the spec: the property \<open>tab.user\<close> of crontab.py, the tab's
  declared user: the name of the invoking user for \<open>user=True\<close> and the
  constructor's argument otherwise.  The function is \<open>tab.user or 'unknown'\<close>
  of \<open>CronTabs.all\<close>: \<open>None\<close>, \<open>False\<close> and the empty string are false
  in Python.
\<close>

definition user_or_unknown :: "fs \<Rightarrow> tab_user \<Rightarrow> string" where
  "user_or_unknown env u =
     (case u of
        UserNone \<Rightarrow> ''unknown''
      | UserFalse \<Rightarrow> ''unknown''
      | UserTrue \<Rightarrow> (if whoami env = [] then ''unknown'' else whoami env)
      | UserName n \<Rightarrow> (if n = [] then ''unknown'' else n))"

subsection \<open>UserSpool\<close>

text \<open>\<open>UserSpool.listdir\<close>: an \<open>OSError\<close> of \<open>os.listdir\<close> becomes the empty list.\<close>

definition listdir :: "fs \<Rightarrow> path \<Rightarrow> error + string list" where
  "listdir env loc =
     (case os_listdir env loc of
        Inl OSError \<Rightarrow> Inr []
      | Inl e \<Rightarrow> Inl e
      | Inr names \<Rightarrow> Inr names)"

text \<open>
  \<open>UserSpool.get_owner\<close>: only the \<open>KeyError\<close> of \<open>getpwuid\<close> is caught
  (the owner is then \<open>None\<close>); an error of \<open>stat\<close> escapes.
\<close>

definition get_owner :: "fs \<Rightarrow> path \<Rightarrow> error + string option" where
  "get_owner env p =
     (case os_stat_uid env p of
        Inl e \<Rightarrow> (case e of KeyError \<Rightarrow> Inr None | _ \<Rightarrow> Inl e)
      | Inr uid \<Rightarrow>
          (case getpwuid_name env uid of
             Inl KeyError \<Rightarrow> Inr None
           | Inl e \<Rightarrow> Inl e
           | Inr name \<Rightarrow> Inr (Some name)))"

definition generate :: "fs \<Rightarrow> path \<Rightarrow> string \<Rightarrow> heap \<Rightarrow> error + (nat \<times> heap)" where
  "generate env loc username h =
     (let p = path_join loc username
      in case get_owner env p of
           Inl e \<Rightarrow> Inl e
         | Inr owner \<Rightarrow>
             if Some username \<noteq> owner then CronTab env UserNone (Some p) h
             else CronTab env (UserName username) None h)"


text \<open>The loop of \<open>UserSpool.__init__\<close>; \<open>self\<close> is the list built so far.\<close>

fun UserSpool_loop :: "fs \<Rightarrow> path \<Rightarrow> string list \<Rightarrow> nat list \<Rightarrow> heap \<Rightarrow> error + (nat list \<times> heap)" where
  "UserSpool_loop env loc [] self h = Inr (self, h)"
| "UserSpool_loop env loc (username # rest) self h =
     (case generate env loc username h of
        Inl e \<Rightarrow> Inl e
      | Inr (tab, h1) \<Rightarrow>
          UserSpool_loop env loc rest
            (if tab_truth env (tab_at h1 tab) then self @ [tab] else self) h1)"

definition UserSpool :: "fs \<Rightarrow> path \<Rightarrow> heap \<Rightarrow> error + (nat list \<times> heap)" where
  "UserSpool env loc h =
     (case listdir env loc of
        Inl e \<Rightarrow> Inl e
      | Inr names \<Rightarrow>
          (case UserSpool_loop env loc names [] h of
             Inl e \<Rightarrow> Inl e
           | Inr (self, h1) \<Rightarrow>
               if self = [] then
                 (case CronTab env UserTrue None h1 of
                    Inl e \<Rightarrow> Inl e
                  | Inr (tab, h2) \<Rightarrow>
                      Inr (if tab_truth env (tab_at h2 tab) then [tab] else [], h2))
               else Inr (self, h1)))"

subsection \<open>SystemTab\<close>

text \<open>The loop over the directory; \<open>item[0]\<close> of an empty name is an \<open>IndexError\<close>.\<close>

fun SystemTab_loop :: "fs \<Rightarrow> path \<Rightarrow> string list \<Rightarrow> nat list \<Rightarrow> heap \<Rightarrow> error + (nat list \<times> heap)" where
  "SystemTab_loop env loc [] self h = Inr (self, h)"
| "SystemTab_loop env loc (item # rest) self h =
     (case item of
        [] \<Rightarrow> Inl IndexError
      | c # _ \<Rightarrow>
          if c = CHR ''.'' then SystemTab_loop env loc rest self h
          else (case CronTab env UserFalse (Some (path_join loc item)) h of
                  Inl e \<Rightarrow> Inl e
                | Inr (tab, h1) \<Rightarrow> SystemTab_loop env loc rest (self @ [tab]) h1))"

definition SystemTab :: "fs \<Rightarrow> path \<Rightarrow> heap \<Rightarrow> error + (nat list \<times> heap)" where
  "SystemTab env loc h =
     (if os_isdir env loc then
        (case os_listdir env loc of
           Inl e \<Rightarrow> Inl e
         | Inr names \<Rightarrow> SystemTab_loop env loc names [] h)
      else if os_isfile env loc then
        (case CronTab env UserFalse (Some loc) h of
           Inl e \<Rightarrow> Inl e
         | Inr (tab, h1) \<Rightarrow> Inr ([tab], h1))
      else Inr ([], h))"

subsection \<open>The aggregator's merged view\<close>

text \<open>
  A \<open>CronTabs\<close> object: the tabs it holds (it is a Python list) and its
  attribute \<open>_all\<close>, the cached merged view.
\<close>

record CronTabs =
  items :: "nat list"
  cached_all :: "nat option"

text \<open>The body of the inner loop of \<open>CronTabs.all\<close>, for one job of one tab.\<close>

definition all_job :: "fs \<Rightarrow> nat \<Rightarrow> nat \<Rightarrow> nat \<Rightarrow> heap \<Rightarrow> heap" where
  "all_job env view tab j h =
     tab_append view j
       (if user (job_at h j) = None
        then set_user j (Some (user_or_unknown env (tuser (tab_at h tab)))) h
        else h)"

text \<open>\<open>for job in tab\<close>: the jobs the tab holds when the loop starts.\<close>

definition all_tab :: "fs \<Rightarrow> nat \<Rightarrow> nat \<Rightarrow> heap \<Rightarrow> heap" where
  "all_tab env view tab h = fold (all_job env view tab) (crons (tab_at h tab)) h"

text \<open>
  The property \<open>CronTabs.all\<close>.  \<open>CronTab(user=False)\<close> has neither a file
  nor a user to read, so it only allocates a tab.
\<close>

definition CronTabs_all :: "fs \<Rightarrow> CronTabs \<Rightarrow> heap \<Rightarrow> nat \<times> CronTabs \<times> heap" where
  "CronTabs_all env self h =
     (case cached_all self of
        Some view \<Rightarrow> (view, self, h)
      | None \<Rightarrow>
          (case alloc_tab UserFalse None h of
             (view, h1) \<Rightarrow>
               (view, self\<lparr>cached_all := Some view\<rparr>, fold (all_tab env view) (items self) h1)))"

subsection \<open>AnaCronTab\<close>

text \<open>\<open>AnaCronTab.add(loc, item, anajob)\<close>; \<open>seed\<close> is \<open>self[0]\<close>.\<close>

definition AnaCronTab_add :: "fs \<Rightarrow> path \<Rightarrow> nat \<Rightarrow> nat \<Rightarrow> string \<Rightarrow> heap \<Rightarrow> error + heap" where
  "AnaCronTab_add env loc seed anajob item h =
     (if item = ''0anacron'' then Inr h
      else (case item of
              [] \<Rightarrow> Inl IndexError
            | c # _ \<Rightarrow>
                if c = CHR ''.'' \<or> \<not> os_access_x env (path_join loc item) then Inr h
                else (case new seed (path_join loc item) (user (job_at h anajob)) h of
                        (j, h1) \<Rightarrow>
                          Inr (setall j anajob
                                 (set_comment j (''Anacron '' @ last_segment loc) h1)))))"

fun AnaCronTab_loop :: "fs \<Rightarrow> path \<Rightarrow> nat \<Rightarrow> nat \<Rightarrow> string list \<Rightarrow> heap \<Rightarrow> error + heap" where
  "AnaCronTab_loop env loc seed anajob [] h = Inr h"
| "AnaCronTab_loop env loc seed anajob (item # rest) h =
     (case AnaCronTab_add env loc seed anajob item h of
        Inl e \<Rightarrow> Inl e
      | Inr h1 \<Rightarrow> AnaCronTab_loop env loc seed anajob rest h1)"

text \<open>
  \<open>AnaCronTab.__init__(loc, tabs)\<close>.  \<open>tabs\<close> is \<open>None\<close> or the aggregator,
  which is true in Python when it holds at least one tab.  The result is the
  list built, the aggregator (reading \<open>tabs.all\<close> may have set its cache)
  and the store.
\<close>

definition AnaCronTab :: "fs \<Rightarrow> path \<Rightarrow> CronTabs option \<Rightarrow> heap \<Rightarrow> error + (nat list \<times> CronTabs option \<times> heap)" where
  "AnaCronTab env loc tabs h =
     (case tabs of
        None \<Rightarrow> Inr ([], None, h)
      | Some a \<Rightarrow>
          if items a \<noteq> [] \<and> os_isdir env loc then
            (case alloc_tab UserFalse None h of
               (seed, h1) \<Rightarrow>
                 (case CronTabs_all env a h1 of
                    (view, a1, h2) \<Rightarrow>
                      (case find_command view loc h2 of
                         [] \<Rightarrow> Inr ([seed], Some a1, h2)
                       | anajob # _ \<Rightarrow>
                           (case os_listdir env loc of
                              Inl e \<Rightarrow> Inl e
                            | Inr names \<Rightarrow>
                                (case AnaCronTab_loop env loc seed anajob names h2 of
                                   Inl e \<Rightarrow> Inl e
                                 | Inr h3 \<Rightarrow> Inr ([seed], Some a1, delete anajob h3))))))
          else Inr ([], Some a, h))"

subsection \<open>CronTabs\<close>

datatype strategy = UserSpoolCls | SystemTabCls | AnaCronTabCls

definition KNOWN_LOCATIONS :: "(strategy \<times> path) list" where
  "KNOWN_LOCATIONS =
     [(UserSpoolCls, ''/var/spool/cron/crontabs/''),
      (SystemTabCls, ''/etc/crontab''),
      (SystemTabCls, ''/etc/cron.d/''),
      (AnaCronTabCls, ''/etc/cron.hourly''),
      (AnaCronTabCls, ''/etc/cron.daily''),
      (AnaCronTabCls, ''/etc/cron.weekly''),
      (AnaCronTabCls, ''/etc/cron.monthly'')]"

text \<open>\<open>cls(*args, tabs=self)\<close>: the list the strategy builds.\<close>

definition construct :: "fs \<Rightarrow> strategy \<Rightarrow> path \<Rightarrow> CronTabs \<Rightarrow> heap \<Rightarrow> error + (nat list \<times> CronTabs \<times> heap)" where
  "construct env cls loc self h =
     (case cls of
        UserSpoolCls \<Rightarrow>
          (case UserSpool env loc h of
             Inl e \<Rightarrow> Inl e
           | Inr (tabs, h1) \<Rightarrow> Inr (tabs, self, h1))
      | SystemTabCls \<Rightarrow>
          (case SystemTab env loc h of
             Inl e \<Rightarrow> Inl e
           | Inr (tabs, h1) \<Rightarrow> Inr (tabs, self, h1))
      | AnaCronTabCls \<Rightarrow>
          (case AnaCronTab env loc (Some self) h of
             Inl e \<Rightarrow> Inl e
           | Inr (tabs, back, h1) \<Rightarrow>
               Inr (tabs, (case back of None \<Rightarrow> self | Some a \<Rightarrow> a), h1)))"

text \<open>The body of the loop of \<open>CronTabs.add\<close>.\<close>

definition append_tab :: "nat \<Rightarrow> CronTabs \<Rightarrow> CronTabs" where
  "append_tab tab self = self\<lparr>items := items self @ [tab], cached_all := None\<rparr>"

definition add :: "fs \<Rightarrow> strategy \<Rightarrow> path \<Rightarrow> CronTabs \<times> heap \<Rightarrow> error + (CronTabs \<times> heap)" where
  "add env cls loc s =
     (case s of
        (self, h) \<Rightarrow>
          (case construct env cls loc self h of
             Inl e \<Rightarrow> Inl e
           | Inr (tabs, self1, h1) \<Rightarrow> Inr (fold append_tab tabs self1, h1)))"

text \<open>The loop of \<open>CronTabs.__init__\<close> over the known locations.\<close>

fun discover :: "fs \<Rightarrow> (strategy \<times> path) list \<Rightarrow> CronTabs \<times> heap \<Rightarrow> error + (CronTabs \<times> heap)" where
  "discover env [] s = Inr s"
| "discover env ((cls, loc) # rest) s =
     (case add env cls loc s of
        Inl e \<Rightarrow> Inl e
      | Inr s1 \<Rightarrow> discover env rest s1)"

text \<open>
  The process: the class attribute \<open>CronTabs._self\<close>, the \<open>CronTabs\<close>
  objects by address, and the store of tabs and jobs.
\<close>

record process =
  cls_self :: "nat option"
  inst_at :: "nat \<Rightarrow> CronTabs"
  ninsts :: nat
  store :: heap

text \<open>\<open>super().__new__(cls)\<close>, stored in \<open>cls._self\<close>: a new, empty list object.\<close>

definition new_instance :: "process \<Rightarrow> nat \<times> process" where
  "new_instance w =
     (ninsts w,
      w\<lparr>cls_self := Some (ninsts w),
        inst_at := (inst_at w)(ninsts w := \<lparr>items = [], cached_all = None\<rparr>),
        ninsts := Suc (ninsts w)\<rparr>)"

text \<open>
  \<open>CronTabs.__new__\<close>: \<open>not cls._self\<close> holds when the attribute is
  \<open>None\<close> and also when it is a list with no element.
\<close>

definition CronTabs_new :: "process \<Rightarrow> nat \<times> process" where
  "CronTabs_new w =
     (case cls_self w of
        None \<Rightarrow> new_instance w
      | Some i \<Rightarrow> if items (inst_at w i) = [] then new_instance w else (i, w))"

text \<open>
  \<open>CronTabs.__init__\<close>.  When a location raises, the call ends with that
  error; what the store holds then is not modelled.
\<close>

definition CronTabs_init :: "fs \<Rightarrow> nat \<Rightarrow> process \<Rightarrow> error + process" where
  "CronTabs_init env i w =
     (if items (inst_at w i) = [] then
        (case discover env KNOWN_LOCATIONS (inst_at w i, store w) of
           Inl e \<Rightarrow> Inl e
         | Inr (self, h) \<Rightarrow> Inr (w\<lparr>inst_at := (inst_at w)(i := self), store := h\<rparr>))
      else Inr w)"

text \<open>The call \<open>CronTabs()\<close>: \<open>__new__\<close>, then \<open>__init__\<close> on its result.\<close>

definition CronTabs_call :: "fs \<Rightarrow> process \<Rightarrow> error + (nat \<times> process)" where
  "CronTabs_call env w =
     (case CronTabs_new w of
        (i, w1) \<Rightarrow>
          (case CronTabs_init env i w1 of
             Inl e \<Rightarrow> Inl e
           | Inr w2 \<Rightarrow> Inr (i, w2)))"

subsection \<open>States of the aggregator\<close>

text \<open>
  What the loop of \<open>CronTabs.all\<close> does to one job record: a job with no
  user gets the user \<open>u\<close>, any other job stays as it is.
\<close>

definition default_user :: "string \<Rightarrow> job \<Rightarrow> job" where
  "default_user u jb = (if user jb = None then jb\<lparr>user := Some u\<rparr> else jb)"

text \<open>
  The states a \<open>CronTabs\<close> object goes through: it starts with no tab and
  no cached view, in any store; \<open>add\<close> and reading \<open>all\<close> are the
  operations of the class.  An \<open>add\<close> that raises is not followed further.
\<close>

inductive reachable :: "fs \<Rightarrow> CronTabs \<times> heap \<Rightarrow> bool" for env :: fs where
  fresh: "reachable env (\<lparr>items = [], cached_all = None\<rparr>, h)"
| added: "reachable env s \<Longrightarrow> add env cls loc s = Inr s' \<Longrightarrow> reachable env s'"
| viewed: "reachable env (self, h) \<Longrightarrow> CronTabs_all env self h = (view, self', h')
           \<Longrightarrow> reachable env (self', h')"

text \<open>
  The tabs \<open>ts\<close> are in order in the store \<open>h\<close>: each is allocated, its
  jobs are allocated, and each of its jobs names it as the tab it lives in.
\<close>

definition tabs_ok :: "heap \<Rightarrow> nat list \<Rightarrow> bool" where
  "tabs_ok h ts \<longleftrightarrow>
     (\<forall>t\<in>set ts. t < ntabs h
        \<and> (\<forall>j\<in>set (crons (tab_at h t)). j < njobs h \<and> cron (job_at h j) = t))"

text \<open>
  What holds in each state the aggregator reaches: the tabs held are in
  order; a cached view is an allocated tab that is not one of the tabs held,
  lists the jobs of the tabs held, in order, and all of these have a user.
\<close>

definition state_ok :: "CronTabs \<times> heap \<Rightarrow> bool" where
  "state_ok s =
     (case s of
        (a, h) \<Rightarrow>
          tabs_ok h (items a)
          \<and> (\<forall>v. cached_all a = Some v \<longrightarrow>
                 v < ntabs h \<and> v \<notin> set (items a)
                 \<and> crons (tab_at h v) = concat (map (\<lambda>t. crons (tab_at h t)) (items a))
                 \<and> (\<forall>j\<in>set (crons (tab_at h v)). user (job_at h j) \<noteq> None)))"

text \<open>The store \<open>h'\<close> is \<open>h\<close> with more objects: what \<open>h\<close> held is as it was.\<close>

definition extends :: "heap \<Rightarrow> heap \<Rightarrow> bool" where
  "extends h h' \<longleftrightarrow>
     ntabs h \<le> ntabs h' \<and> njobs h \<le> njobs h'
     \<and> (\<forall>t<ntabs h. tab_at h' t = tab_at h t)
     \<and> (\<forall>j<njobs h. job_at h' j = job_at h j)"

text \<open>
  The directory entries \<open>AnaCronTab.add\<close> does not skip: the name is not
  \<open>0anacron\<close>, does not start with a dot, and the file is executable.
\<close>

definition absorbed :: "fs \<Rightarrow> path \<Rightarrow> string \<Rightarrow> bool" where
  "absorbed env loc item \<longleftrightarrow>
     item \<noteq> ''0anacron'' \<and> \<not> startswith item ''.'' \<and> os_access_x env (path_join loc item)"

text \<open>The job \<open>AnaCronTab.add\<close> makes for an entry, from the template job.\<close>

definition absorbed_job :: "path \<Rightarrow> nat \<Rightarrow> job \<Rightarrow> string \<Rightarrow> job" where
  "absorbed_job loc seed template item =
     \<lparr>command = path_join loc item, user = user template,
      comment = ''Anacron '' @ last_segment loc, slices = slices template, cron = seed\<rparr>"

subsection \<open>An example system\<close>

text \<open>
  A small machine, used to run the definitions on concrete input.  The spool
  holds three files: \<open>alice\<close>, owned by alice; \<open>bob\<close>, owned by the
  account robert; \<open>carol\<close>, whose owner has no account any more.
  \<open>/etc/crontab\<close> is a file whose one job runs the scripts of
  \<open>/etc/cron.daily\<close>; that directory holds \<open>0anacron\<close>, \<open>.bak\<close>,
  the executable \<open>run.sh\<close> and the plain file \<open>notes\<close>.  A tab is true
  when it has a job (\<open>CronTab.__len__\<close> of python-crontab).
\<close>

definition backup_line :: job where
  "backup_line =
     \<lparr>command = ''backup.sh'', user = None, comment = [],
      slices = \<lparr>minute = ''0'', hour = ''3'', dom = ''*'', month = ''*'', dow = ''*''\<rparr>,
      cron = 0\<rparr>"

definition daily_line :: job where
  "daily_line =
     \<lparr>command = ''run-parts /etc/cron.daily'', user = Some ''root'', comment = [],
      slices = \<lparr>minute = ''25'', hour = ''6'', dom = ''*'', month = ''*'', dow = ''*''\<rparr>,
      cron = 0\<rparr>"

definition demo_env :: fs where
  "demo_env =
     \<lparr>os_listdir = (\<lambda>p.
        if p = ''/var/spool/cron/crontabs/'' then Inr [''alice'', ''bob'', ''carol'']
        else if p = ''/etc/cron.d/'' then Inr [''.placeholder'', ''sysstat'']
        else if p = ''/etc/cron.daily'' then Inr [''0anacron'', ''.bak'', ''run.sh'', ''notes'']
        else Inl OSError),
      os_isdir = (\<lambda>p. p = ''/var/spool/cron/crontabs/'' \<or> p = ''/etc/cron.d/''
                        \<or> p = ''/etc/cron.daily''),
      os_isfile = (\<lambda>p. p = ''/etc/crontab''),
      os_stat_uid = (\<lambda>p.
        if p = ''/var/spool/cron/crontabs/alice'' then Inr 1000
        else if p = ''/var/spool/cron/crontabs/bob'' then Inr 1001
        else if p = ''/var/spool/cron/crontabs/carol'' then Inr 1002
        else Inl OSError),
      getpwuid_name = (\<lambda>uid.
        if uid = 1000 then Inr ''alice''
        else if uid = 1001 then Inr ''robert''
        else Inl KeyError),
      os_access_x = (\<lambda>p. p = ''/etc/cron.daily/run.sh'' \<or> p = ''/etc/cron.daily/0anacron''),
      whoami = ''pi'',
      crontab_l = (\<lambda>n. if n = ''alice'' then Inr [backup_line] else Inr []),
      read_tabfile = (\<lambda>p. if p = ''/etc/crontab'' then Inr [daily_line] else Inr []),
      tab_truth = (\<lambda>t. crons t \<noteq> [])\<rparr>"

definition blank_job :: job where
  "blank_job = \<lparr>command = [], user = None, comment = [], slices = every_minute, cron = 0\<rparr>"

definition blank_tab :: crontab where
  "blank_tab = \<lparr>tuser = UserNone, tabfile = None, crons = []\<rparr>"

text \<open>The store before anything is allocated.\<close>

definition empty_heap :: heap where
  "empty_heap = \<lparr>job_at = (\<lambda>_. blank_job), tab_at = (\<lambda>_. blank_tab), njobs = 0, ntabs = 0\<rparr>"

text \<open>
  The same machine with no cron location at all: nothing can be listed,
  nothing is a directory or a file.  The invoking user \<open>pi\<close> has no job.
\<close>

definition bare_env :: fs where
  "bare_env =
     demo_env\<lparr>os_listdir := (\<lambda>_. Inl OSError), os_isdir := (\<lambda>_. False),
       os_isfile := (\<lambda>_. False)\<rparr>"


text \<open>
  The states of one discovery on the example machine, written out.  A new
  aggregator adds the spool (\<open>spool_state\<close>), is read (\<open>spool_viewed\<close>),
  adds \<open>/etc/crontab\<close> (\<open>system_state\<close>), is read again
  (\<open>system_viewed\<close>) and absorbs \<open>/etc/cron.daily\<close> (\<open>absorbed_state\<close>).
\<close>

definition empty_CronTabs :: CronTabs where
  "empty_CronTabs = \<lparr>items = [], cached_all = None\<rparr>"

definition spool_heap :: heap where
  "spool_heap =
     \<lparr>job_at = (\<lambda>_. blank_job)(0 := backup_line),
      tab_at = (\<lambda>_. blank_tab)
        (0 := \<lparr>tuser = UserName ''alice'', tabfile = None, crons = [0]\<rparr>,
         1 := \<lparr>tuser = UserNone, tabfile = Some ''/var/spool/cron/crontabs/bob'', crons = []\<rparr>,
         2 := \<lparr>tuser = UserNone, tabfile = Some ''/var/spool/cron/crontabs/carol'', crons = []\<rparr>),
      njobs = 1, ntabs = 3\<rparr>"

definition spool_state :: "CronTabs \<times> heap" where
  "spool_state = (\<lparr>items = [0], cached_all = None\<rparr>, spool_heap)"

definition spool_viewed :: "CronTabs \<times> heap" where
  "spool_viewed =
     (\<lparr>items = [0], cached_all = Some 3\<rparr>,
      spool_heap
        \<lparr>job_at := (job_at spool_heap)(0 := backup_line\<lparr>user := Some ''alice''\<rparr>),
         tab_at := (tab_at spool_heap)(3 := \<lparr>tuser = UserFalse, tabfile = None, crons = [0]\<rparr>),
         ntabs := 4\<rparr>)"

definition system_state :: "CronTabs \<times> heap" where
  "system_state =
     (\<lparr>items = [0, 4], cached_all = None\<rparr>,
      (snd spool_viewed)
        \<lparr>job_at := (job_at (snd spool_viewed))(1 := daily_line\<lparr>cron := 4\<rparr>),
         tab_at := (tab_at (snd spool_viewed))
           (4 := \<lparr>tuser = UserFalse, tabfile = Some ''/etc/crontab'', crons = [1]\<rparr>),
         njobs := 2, ntabs := 5\<rparr>)"

definition system_viewed :: "CronTabs \<times> heap" where
  "system_viewed =
     (\<lparr>items = [0, 4], cached_all = Some 5\<rparr>,
      (snd system_state)
        \<lparr>tab_at := (tab_at (snd system_state))
           (5 := \<lparr>tuser = UserFalse, tabfile = None, crons = [0, 1]\<rparr>),
         ntabs := 6\<rparr>)"

definition run_sh_job :: job where
  "run_sh_job =
     \<lparr>command = ''/etc/cron.daily/run.sh'', user = Some ''root'', comment = ''Anacron daily'',
      slices = \<lparr>minute = ''25'', hour = ''6'', dom = ''*'', month = ''*'', dow = ''*''\<rparr>,
      cron = 6\<rparr>"

definition absorbed_state :: "CronTabs \<times> heap" where
  "absorbed_state =
     (\<lparr>items = [0, 4, 6], cached_all = None\<rparr>,
      (snd system_viewed)
        \<lparr>job_at := (job_at (snd system_viewed))(2 := run_sh_job),
         tab_at := (tab_at (snd system_viewed))
           (6 := \<lparr>tuser = UserFalse, tabfile = None, crons = [2]\<rparr>,
            4 := \<lparr>tuser = UserFalse, tabfile = Some ''/etc/crontab'', crons = []\<rparr>),
         njobs := 3, ntabs := 7\<rparr>)"

text \<open>
  The example machine with \<open>/etc/cron.d/\<close> present but unreadable: it is a
  directory, and listing it raises \<open>OSError\<close>.
\<close>

definition locked_env :: fs where
  "locked_env =
     demo_env\<lparr>os_listdir := (\<lambda>p. if p = ''/etc/cron.d/'' then Inl OSError else os_listdir demo_env p)\<rparr>"

text \<open>The process before \<open>CronTabs()\<close> is first called.\<close>

definition start_process :: process where
  "start_process =
     \<lparr>cls_self = None, inst_at = (\<lambda>_. empty_CronTabs), ninsts = 0, store = empty_heap\<rparr>"

section \<open>Properties\<close>

subsection \<open>The store\<close>

lemma CronTab_system: "CronTab env UserFalse None h = Inr (alloc_tab UserFalse None h)"
  by (simp add: CronTab_def read_lines_def split: prod.splits)

lemma tab_append_fields [simp]:
  "job_at (tab_append t j h) = job_at h"
  "njobs (tab_append t j h) = njobs h"
  "ntabs (tab_append t j h) = ntabs h"
  "tab_at (tab_append t j h) t' = (if t' = t then (tab_at h t)\<lparr>crons := crons (tab_at h t) @ [j]\<rparr> else tab_at h t')"
  by (simp_all add: tab_append_def)

lemma alloc_job_fields [simp]:
  "fst (alloc_job j h) = njobs h"
  "job_at (snd (alloc_job j h)) = (job_at h)(njobs h := j)"
  "tab_at (snd (alloc_job j h)) = tab_at h"
  "njobs (snd (alloc_job j h)) = Suc (njobs h)"
  "ntabs (snd (alloc_job j h)) = ntabs h"
  by (simp_all add: alloc_job_def)

lemma alloc_tab_fields [simp]:
  "fst (alloc_tab u f h) = ntabs h"
  "job_at (snd (alloc_tab u f h)) = job_at h"
  "tab_at (snd (alloc_tab u f h)) = (tab_at h)(ntabs h := \<lparr>tuser = u, tabfile = f, crons = []\<rparr>)"
  "njobs (snd (alloc_tab u f h)) = njobs h"
  "ntabs (snd (alloc_tab u f h)) = Suc (ntabs h)"
  by (simp_all add: alloc_tab_def)

lemma load_lines_counts [simp]:
  "ntabs (load_lines t ls h) = ntabs h"
  "njobs (load_lines t ls h) = njobs h + length ls"
  by (induction ls arbitrary: h) (simp_all split: prod.splits add: alloc_job_def)

lemma load_lines_tab_at [simp]:
  "tab_at (load_lines t ls h) t' =
     (if t' = t then (tab_at h t)\<lparr>crons := crons (tab_at h t) @ [njobs h ..< njobs h + length ls]\<rparr>
      else tab_at h t')"
proof (induction ls arbitrary: h)
  case Nil
  show ?case by simp
next
  case (Cons l ls)
  have "[njobs h ..< Suc (njobs h + length ls)] = njobs h # [Suc (njobs h) ..< Suc (njobs h + length ls)]"
    by (rule upt_conv_Cons) simp
  then show ?case using Cons by (simp del: upt_Suc split: prod.splits add: alloc_job_def)
qed

lemma load_lines_job_at:
  "j < njobs h \<Longrightarrow> job_at (load_lines t ls h) j = job_at h j"
  by (induction ls arbitrary: h) (simp_all split: prod.splits add: alloc_job_def)

lemma load_lines_new_job:
  "i < length ls \<Longrightarrow> job_at (load_lines t ls h) (njobs h + i) = (ls ! i)\<lparr>cron := t\<rparr>"
proof (induction ls arbitrary: h i)
  case Nil then show ?case by simp
next
  case (Cons l ls)
  show ?case
  proof (cases i)
    case 0
    then show ?thesis by (simp split: prod.splits add: alloc_job_def load_lines_job_at)
  next
    case (Suc k)
    then have "k < length ls" using Cons.prems by simp
    from Cons.IH[OF this, of "tab_append t (njobs h) (snd (alloc_job (l\<lparr>cron := t\<rparr>) h))"]
    show ?thesis using Suc by (simp split: prod.splits add: alloc_job_def)
  qed
qed

lemma CronTab_Inr:
  "read_lines env u f = Inr ls \<Longrightarrow>
   CronTab env u f h = Inr (ntabs h, load_lines (ntabs h) ls (snd (alloc_tab u f h)))"
  by (simp add: CronTab_def alloc_tab_def)

lemma CronTab_Inl: "read_lines env u f = Inl e \<Longrightarrow> CronTab env u f h = Inl e"
  by (simp add: CronTab_def)

lemma CronTab_result:
  assumes "CronTab env u f h = Inr (t, h')"
  shows "t = ntabs h" and "ntabs h' = Suc (ntabs h)" and "njobs h \<le> njobs h'"
    and "binding h' t = (u, f)"
    and "crons (tab_at h' t) = [njobs h ..< njobs h']"
    and "\<And>t'. t' \<noteq> ntabs h \<Longrightarrow> tab_at h' t' = tab_at h t'"
    and "\<And>j. j < njobs h \<Longrightarrow> job_at h' j = job_at h j"
proof -
  obtain ls where ls: "read_lines env u f = Inr ls"
    using assms by (cases "read_lines env u f") (simp_all add: CronTab_def)
  from CronTab_Inr[OF ls, of h] assms
  have t: "t = ntabs h" and h': "h' = load_lines (ntabs h) ls (snd (alloc_tab u f h))"
    by simp_all
  show "t = ntabs h" by (rule t)
  show "ntabs h' = Suc (ntabs h)" by (simp add: h')
  show "njobs h \<le> njobs h'" by (simp add: h')
  show "binding h' t = (u, f)" by (simp add: h' t binding_def)
  show "crons (tab_at h' t) = [njobs h ..< njobs h']" by (simp add: h' t)
  show "\<And>t'. t' \<noteq> ntabs h \<Longrightarrow> tab_at h' t' = tab_at h t'" by (simp add: h')
  show "\<And>j. j < njobs h \<Longrightarrow> job_at h' j = job_at h j" by (simp add: h' load_lines_job_at)
qed

subsection \<open>The merged view\<close>

lemma default_user_simps [simp]:
  "user (default_user u jb) \<noteq> None"
  "user jb \<noteq> None \<Longrightarrow> default_user u jb = jb"
  "default_user u' (default_user u jb) = default_user u jb"
  "command (default_user u jb) = command jb"
  "comment (default_user u jb) = comment jb"
  "slices (default_user u jb) = slices jb"
  "cron (default_user u jb) = cron jb"
  by (simp_all add: default_user_def)

lemma set_user_fields [simp]:
  "tab_at (set_user j u h) = tab_at h"
  "njobs (set_user j u h) = njobs h"
  "ntabs (set_user j u h) = ntabs h"
  "job_at (set_user j u h) j' = (if j' = j then (job_at h j)\<lparr>user := u\<rparr> else job_at h j')"
  by (simp_all add: set_user_def)

lemma all_job_fields [simp]:
  "njobs (all_job env v t j h) = njobs h"
  "ntabs (all_job env v t j h) = ntabs h"
  "tab_at (all_job env v t j h) t' =
     (if t' = v then (tab_at h v)\<lparr>crons := crons (tab_at h v) @ [j]\<rparr> else tab_at h t')"
  "job_at (all_job env v t j h) j' =
     (if j' = j then default_user (user_or_unknown env (tuser (tab_at h t))) (job_at h j)
      else job_at h j')"
  by (simp_all add: all_job_def default_user_def)

lemma fold_all_job_counts [simp]:
  "njobs (fold (all_job env v t) js h) = njobs h"
  "ntabs (fold (all_job env v t) js h) = ntabs h"
  by (induction js arbitrary: h) simp_all

lemma fold_all_job_tab_at:
  "tab_at (fold (all_job env v t) js h) t' =
     (if t' = v then (tab_at h v)\<lparr>crons := crons (tab_at h v) @ js\<rparr> else tab_at h t')"
  by (induction js arbitrary: h) simp_all

lemma fold_all_job_job_at:
  "job_at (fold (all_job env v t) js h) j =
     (if j \<in> set js then default_user (user_or_unknown env (tuser (tab_at h t))) (job_at h j)
      else job_at h j)"
proof (induction js arbitrary: h)
  case Nil
  show ?case by simp
next
  case (Cons j0 js)
  have "tuser (tab_at (all_job env v t j0 h) t) = tuser (tab_at h t)" by simp
  then show ?case using Cons[of "all_job env v t j0 h"] by simp
qed

lemma all_tab_fields [simp]:
  "njobs (all_tab env v t h) = njobs h"
  "ntabs (all_tab env v t h) = ntabs h"
  "tab_at (all_tab env v t h) t' =
     (if t' = v then (tab_at h v)\<lparr>crons := crons (tab_at h v) @ crons (tab_at h t)\<rparr>
      else tab_at h t')"
  "job_at (all_tab env v t h) j =
     (if j \<in> set (crons (tab_at h t))
      then default_user (user_or_unknown env (tuser (tab_at h t))) (job_at h j)
      else job_at h j)"
  by (simp_all add: all_tab_def fold_all_job_tab_at fold_all_job_job_at)

lemma fold_all_tab_counts [simp]:
  "njobs (fold (all_tab env v) ts h) = njobs h"
  "ntabs (fold (all_tab env v) ts h) = ntabs h"
  by (induction ts arbitrary: h) simp_all

lemma fold_all_tab_other:
  "t' \<noteq> v \<Longrightarrow> tab_at (fold (all_tab env v) ts h) t' = tab_at h t'"
  by (induction ts arbitrary: h) simp_all

lemma fold_all_tab_view:
  "v \<notin> set ts \<Longrightarrow>
   tab_at (fold (all_tab env v) ts h) v =
     (tab_at h v)\<lparr>crons := crons (tab_at h v) @ concat (map (\<lambda>t. crons (tab_at h t)) ts)\<rparr>"
proof (induction ts arbitrary: h)
  case Nil
  show ?case by simp
next
  case (Cons t ts)
  then have tv: "t \<noteq> v" and vts: "v \<notin> set ts" by auto
  have ne: "\<And>x. x \<in> set ts \<Longrightarrow> (x = v) = False" using vts by auto
  show ?case using Cons.IH[OF vts, of "all_tab env v t h"] tv
    by (simp add: ne cong: map_cong)
qed

text \<open>The job gets the user of the first tab that holds it.\<close>

lemma fold_all_tab_job_at:
  "v \<notin> set ts \<Longrightarrow>
   job_at (fold (all_tab env v) ts h) j =
     (case find (\<lambda>t. j \<in> set (crons (tab_at h t))) ts of
        None \<Rightarrow> job_at h j
      | Some t \<Rightarrow> default_user (user_or_unknown env (tuser (tab_at h t))) (job_at h j))"
proof (induction ts arbitrary: h)
  case Nil
  show ?case by simp
next
  case (Cons t ts)
  then have tv: "t \<noteq> v" and vts: "v \<notin> set ts" by auto
  let ?h1 = "all_tab env v t h"
  have ne: "\<And>x. x \<in> set ts \<Longrightarrow> (x = v) = False" using vts by auto
  have ih: "job_at (fold (all_tab env v) ts ?h1) j =
     (case find (\<lambda>t'. j \<in> set (crons (tab_at h t'))) ts of
        None \<Rightarrow> job_at ?h1 j
      | Some t' \<Rightarrow> default_user (user_or_unknown env (tuser (tab_at ?h1 t'))) (job_at ?h1 j))"
    using Cons.IH[OF vts, of ?h1] by (simp add: ne cong: find_cong)
  show ?case
  proof (cases "find (\<lambda>t'. j \<in> set (crons (tab_at h t'))) ts")
    case None
    then show ?thesis using ih by simp
  next
    case (Some t')
    then have "t' \<in> set ts" by (auto simp add: find_Some_iff)
    then have "t' \<noteq> v" using vts by auto
    then show ?thesis using ih Some by simp
  qed
qed

lemma CronTabs_all_cached:
  "cached_all a = Some v \<Longrightarrow> CronTabs_all env a h = (v, a, h)"
  by (simp add: CronTabs_all_def)

lemma CronTabs_all_rebuild:
  "cached_all a = None \<Longrightarrow>
   CronTabs_all env a h =
     (ntabs h, a\<lparr>cached_all := Some (ntabs h)\<rparr>,
      fold (all_tab env (ntabs h)) (items a) (snd (alloc_tab UserFalse None h)))"
  by (simp add: CronTabs_all_def alloc_tab_def)


subsection \<open>SystemTab and UserSpool\<close>

lemma SystemTab_loop_handles:
  assumes "[] \<notin> set names"
    and "\<forall>n\<in>set names. \<not> startswith n ''.'' \<longrightarrow>
           (\<exists>ls. read_tabfile env (path_join loc n) = Inr ls)"
  shows "\<exists>new h'. SystemTab_loop env loc names self h = Inr (self @ new, h')
           \<and> map (binding h') new
               = map (\<lambda>n. (UserFalse, Some (path_join loc n)))
                   (filter (\<lambda>n. \<not> startswith n ''.'') names)
           \<and> distinct new
           \<and> (\<forall>t\<in>set new. ntabs h \<le> t \<and> t < ntabs h')
           \<and> ntabs h \<le> ntabs h'
           \<and> (\<forall>t<ntabs h. tab_at h' t = tab_at h t)"
  using assms
proof (induction names arbitrary: self h)
  case Nil
  then show ?case by simp
next
  case (Cons item rest)
  from Cons.prems obtain c cs where item: "item = c # cs" by (cases item) auto
  have rest1: "[] \<notin> set rest" using Cons.prems by auto
  have rest2: "\<forall>n\<in>set rest. \<not> startswith n ''.'' \<longrightarrow>
           (\<exists>ls. read_tabfile env (path_join loc n) = Inr ls)" using Cons.prems by auto
  show ?case
  proof (cases "c = CHR ''.''")
    case True
    from Cons.IH[OF rest1 rest2, of self h] show ?thesis
      using True item by simp
  next
    case False
    then have vis: "\<not> startswith item ''.''" using item by simp
    then obtain ls where "read_tabfile env (path_join loc item) = Inr ls"
      using Cons.prems by auto
    then have "read_lines env UserFalse (Some (path_join loc item)) = Inr ls"
      by (simp add: read_lines_def)
    from CronTab_Inr[OF this, of h] obtain h1 where
      ct: "CronTab env UserFalse (Some (path_join loc item)) h = Inr (ntabs h, h1)" by blast
    note r = CronTab_result[OF ct]
    from Cons.IH[OF rest1 rest2, of "self @ [ntabs h]" h1] obtain new h' where
      ih: "SystemTab_loop env loc rest (self @ [ntabs h]) h1 = Inr ((self @ [ntabs h]) @ new, h')"
        "map (binding h') new = map (\<lambda>n. (UserFalse, Some (path_join loc n)))
                   (filter (\<lambda>n. \<not> startswith n ''.'') rest)"
        "distinct new" "\<forall>t\<in>set new. ntabs h1 \<le> t \<and> t < ntabs h'"
        "ntabs h1 \<le> ntabs h'" "\<forall>t<ntabs h1. tab_at h' t = tab_at h1 t"
      by blast
    have b0: "binding h' (ntabs h) = (UserFalse, Some (path_join loc item))"
      using r(4) ih(6) r(2) by (simp add: binding_def)
    have "SystemTab_loop env loc (item # rest) self h = Inr (self @ (ntabs h # new), h')"
      using item False ct ih(1) by simp
    moreover have "map (binding h') (ntabs h # new)
        = map (\<lambda>n. (UserFalse, Some (path_join loc n)))
            (filter (\<lambda>n. \<not> startswith n ''.'') (item # rest))"
      using vis b0 ih(2) by simp
    moreover have "distinct (ntabs h # new)" using ih(3,4) r(2) by auto
    moreover have "\<forall>t\<in>set (ntabs h # new). ntabs h \<le> t \<and> t < ntabs h'"
      using ih(4,5) r(2) by auto
    moreover have "ntabs h \<le> ntabs h'" using ih(5) r(2) by simp
    moreover have "\<forall>t<ntabs h. tab_at h' t = tab_at h t"
      using ih(6) r(2) r(6) by simp
    ultimately show ?thesis by blast
  qed
qed

text \<open>
  C6.  For a directory that can be listed, \<open>SystemTab\<close> returns one tab per
  entry whose name does not start with a dot, in listing order, each a system
  tab (\<open>user=False\<close>) bound to the entry's full path, provided the engine can
  open each of these files.  For a regular file it returns one system tab
  bound to the path.  For a path that is neither it returns no tab and no
  error, and leaves the store as it was.
\<close>

theorem SystemTab_handles:
  "(os_isdir env P \<and> os_listdir env P = Inr names \<and> [] \<notin> set names
      \<and> (\<forall>n\<in>set names. \<not> startswith n ''.'' \<longrightarrow>
            (\<exists>ls. read_tabfile env (path_join P n) = Inr ls))
     \<longrightarrow> (\<exists>tabs h'. SystemTab env P h = Inr (tabs, h')
            \<and> map (binding h') tabs
                = map (\<lambda>n. (UserFalse, Some (path_join P n)))
                    (filter (\<lambda>n. \<not> startswith n ''.'') names)
            \<and> distinct tabs))
   \<and> (\<not> os_isdir env P \<and> os_isfile env P \<and> read_tabfile env P = Inr ls
     \<longrightarrow> (\<exists>h'. SystemTab env P h = Inr ([ntabs h], h')
            \<and> binding h' (ntabs h) = (UserFalse, Some P)))
   \<and> (\<not> os_isdir env P \<and> \<not> os_isfile env P \<longrightarrow> SystemTab env P h = Inr ([], h))"
proof (intro conjI impI)
  assume a: "os_isdir env P \<and> os_listdir env P = Inr names \<and> [] \<notin> set names
      \<and> (\<forall>n\<in>set names. \<not> startswith n ''.'' \<longrightarrow>
            (\<exists>ls. read_tabfile env (path_join P n) = Inr ls))"
  then have "SystemTab env P h = SystemTab_loop env P names [] h"
    by (simp add: SystemTab_def)
  with SystemTab_loop_handles[of names env P "[]" h] a
  show "\<exists>tabs h'. SystemTab env P h = Inr (tabs, h')
            \<and> map (binding h') tabs
                = map (\<lambda>n. (UserFalse, Some (path_join P n)))
                    (filter (\<lambda>n. \<not> startswith n ''.'') names)
            \<and> distinct tabs"
    by auto
next
  assume a: "\<not> os_isdir env P \<and> os_isfile env P \<and> read_tabfile env P = Inr ls"
  then have "read_lines env UserFalse (Some P) = Inr ls" by (simp add: read_lines_def)
  from CronTab_Inr[OF this, of h] obtain h1 where
    ct: "CronTab env UserFalse (Some P) h = Inr (ntabs h, h1)" by blast
  from CronTab_result(4)[OF ct] ct a
  show "\<exists>h'. SystemTab env P h = Inr ([ntabs h], h') \<and> binding h' (ntabs h) = (UserFalse, Some P)"
    by (simp add: SystemTab_def)
next
  assume "\<not> os_isdir env P \<and> \<not> os_isfile env P"
  then show "SystemTab env P h = Inr ([], h)" by (simp add: SystemTab_def)
qed

theorem SystemTab_handles_witness:
  "os_isdir demo_env ''/etc/cron.d/''
   \<and> os_listdir demo_env ''/etc/cron.d/'' = Inr [''.placeholder'', ''sysstat'']
   \<and> read_tabfile demo_env (path_join ''/etc/cron.d/'' ''sysstat'') = Inr []
   \<and> (\<exists>tabs h'. SystemTab demo_env ''/etc/cron.d/'' empty_heap = Inr (tabs, h')
         \<and> map (binding h') tabs = [(UserFalse, Some (path_join ''/etc/cron.d/'' ''sysstat''))]
         \<and> distinct tabs)
   \<and> \<not> os_isdir demo_env ''/etc/crontab'' \<and> os_isfile demo_env ''/etc/crontab''
   \<and> read_tabfile demo_env ''/etc/crontab'' = Inr [daily_line]
   \<and> (\<exists>h'. SystemTab demo_env ''/etc/crontab'' empty_heap = Inr ([0], h')
         \<and> binding h' 0 = (UserFalse, Some ''/etc/crontab''))
   \<and> \<not> os_isdir demo_env ''/nowhere'' \<and> \<not> os_isfile demo_env ''/nowhere''
   \<and> SystemTab demo_env ''/nowhere'' empty_heap = Inr ([], empty_heap)"
proof -
  have d: "os_isdir demo_env ''/etc/cron.d/''"
    "os_listdir demo_env ''/etc/cron.d/'' = Inr [''.placeholder'', ''sysstat'']"
    "read_tabfile demo_env (path_join ''/etc/cron.d/'' ''sysstat'') = Inr []"
    "read_tabfile demo_env (path_join ''/etc/cron.d/'' ''.placeholder'') = Inr []"
    by (simp_all add: demo_env_def path_join_def)
  have f: "\<not> os_isdir demo_env ''/etc/crontab''" "os_isfile demo_env ''/etc/crontab''"
    "read_tabfile demo_env ''/etc/crontab'' = Inr [daily_line]"
    by (simp_all add: demo_env_def)
  have n: "\<not> os_isdir demo_env ''/nowhere''" "\<not> os_isfile demo_env ''/nowhere''"
    by (simp_all add: demo_env_def)
  have z: "ntabs empty_heap = 0" by (simp add: empty_heap_def)
  from SystemTab_handles[where env = demo_env and P = "''/etc/cron.d/''"
      and names = "[''.placeholder'', ''sysstat'']" and h = empty_heap] d
  have 1: "\<exists>tabs h'. SystemTab demo_env ''/etc/cron.d/'' empty_heap = Inr (tabs, h')
         \<and> map (binding h') tabs = [(UserFalse, Some (path_join ''/etc/cron.d/'' ''sysstat''))]
         \<and> distinct tabs"
    by simp
  from SystemTab_handles[where env = demo_env and P = "''/etc/crontab''"
      and ls = "[daily_line]" and h = empty_heap] f z
  have 2: "\<exists>h'. SystemTab demo_env ''/etc/crontab'' empty_heap = Inr ([0], h')
         \<and> binding h' 0 = (UserFalse, Some ''/etc/crontab'')"
    by simp
  from SystemTab_handles[where env = demo_env and P = "''/nowhere''" and h = empty_heap] n
  have 3: "SystemTab demo_env ''/nowhere'' empty_heap = Inr ([], empty_heap)"
    by simp
  from d(1-3) f n 1 2 3 show ?thesis by blast
qed

text \<open>
  C4, as amended.  When the spool directory cannot be listed (\<open>OSError\<close>), or
  lists names of which the loop keeps no tab, \<open>UserSpool\<close> opens the crontab
  of the invoking user.  If the engine opens it, no error is raised, and the
  result holds that one tab exactly when the tab is true in Python, else no
  tab at all; the tab is bound to the invoking user and holds the jobs read.
  If the engine cannot open it, its error is the result.
\<close>

theorem UserSpool_fallback:
  assumes "os_listdir env loc = Inl OSError \<and> names = [] \<or> os_listdir env loc = Inr names"
    and "UserSpool_loop env loc names [] h = Inr ([], h1)"
  shows "(\<forall>ls. crontab_l env (whoami env) = Inr ls \<longrightarrow>
            (\<exists>h'. UserSpool env loc h
                     = Inr (if tab_truth env (tab_at h' (ntabs h1)) then [ntabs h1] else [], h')
                 \<and> binding h' (ntabs h1) = (UserTrue, None)
                 \<and> map (job_at h') (crons (tab_at h' (ntabs h1)))
                     = map (\<lambda>l. l\<lparr>cron := ntabs h1\<rparr>) ls))
       \<and> (\<forall>e. crontab_l env (whoami env) = Inl e \<longrightarrow> UserSpool env loc h = Inl e)"
proof (intro conjI allI impI)
  have l: "listdir env loc = Inr names" using assms(1) by (auto simp add: listdir_def)
  fix ls assume c: "crontab_l env (whoami env) = Inr ls"
  then have rl: "read_lines env UserTrue None = Inr ls" by (simp add: read_lines_def)
  define h' where "h' = load_lines (ntabs h1) ls (snd (alloc_tab UserTrue None h1))"
  have ct: "CronTab env UserTrue None h1 = Inr (ntabs h1, h')"
    using CronTab_Inr[OF rl, of h1] by (simp add: h'_def)
  have "UserSpool env loc h
          = Inr (if tab_truth env (tab_at h' (ntabs h1)) then [ntabs h1] else [], h')"
    using l assms(2) ct by (simp add: UserSpool_def)
  moreover have "binding h' (ntabs h1) = (UserTrue, None)" using CronTab_result(4)[OF ct] .
  moreover have "map (job_at h') (crons (tab_at h' (ntabs h1))) = map (\<lambda>l. l\<lparr>cron := ntabs h1\<rparr>) ls"
  proof (rule nth_equalityI)
    show "length (map (job_at h') (crons (tab_at h' (ntabs h1))))
        = length (map (\<lambda>l. l\<lparr>cron := ntabs h1\<rparr>) ls)"
      by (simp add: h'_def)
  next
    fix i assume "i < length (map (job_at h') (crons (tab_at h' (ntabs h1))))"
    then have i: "i < length ls" by (simp add: h'_def)
    then show "map (job_at h') (crons (tab_at h' (ntabs h1))) ! i
        = map (\<lambda>l. l\<lparr>cron := ntabs h1\<rparr>) ls ! i"
      using load_lines_new_job[OF i, of "ntabs h1" "snd (alloc_tab UserTrue None h1)"]
      by (simp add: h'_def)
  qed
  ultimately show "\<exists>h'. UserSpool env loc h
                     = Inr (if tab_truth env (tab_at h' (ntabs h1)) then [ntabs h1] else [], h')
                 \<and> binding h' (ntabs h1) = (UserTrue, None)
                 \<and> map (job_at h') (crons (tab_at h' (ntabs h1)))
                     = map (\<lambda>l. l\<lparr>cron := ntabs h1\<rparr>) ls" by blast
next
  have l: "listdir env loc = Inr names" using assms(1) by (auto simp add: listdir_def)
  fix e assume "crontab_l env (whoami env) = Inl e"
  then have "read_lines env UserTrue None = Inl e" by (simp add: read_lines_def)
  from CronTab_Inl[OF this, of h1] l assms(2) show "UserSpool env loc h = Inl e"
    by (simp add: UserSpool_def)
qed

theorem UserSpool_fallback_witness:
  "os_listdir (demo_env\<lparr>whoami := ''alice''\<rparr>) ''/nowhere'' = Inl OSError
   \<and> UserSpool_loop (demo_env\<lparr>whoami := ''alice''\<rparr>) ''/nowhere'' [] [] empty_heap
       = Inr ([], empty_heap)
   \<and> crontab_l (demo_env\<lparr>whoami := ''alice''\<rparr>) (whoami (demo_env\<lparr>whoami := ''alice''\<rparr>))
       = Inr [backup_line]
   \<and> (\<exists>h'. UserSpool (demo_env\<lparr>whoami := ''alice''\<rparr>) ''/nowhere'' empty_heap = Inr ([0], h')
         \<and> binding h' 0 = (UserTrue, None)
         \<and> map (job_at h') (crons (tab_at h' 0)) = [backup_line])
   \<and> os_listdir bare_env ''/var/spool/cron/crontabs/'' = Inl OSError
   \<and> crontab_l (bare_env\<lparr>crontab_l := (\<lambda>_. Inl OSError)\<rparr>)
        (whoami (bare_env\<lparr>crontab_l := (\<lambda>_. Inl OSError)\<rparr>)) = Inl OSError
   \<and> UserSpool (bare_env\<lparr>crontab_l := (\<lambda>_. Inl OSError)\<rparr>) ''/var/spool/cron/crontabs/'' empty_heap
       = Inl OSError"
proof -
  let ?env = "demo_env\<lparr>whoami := ''alice''\<rparr>"
  let ?bad = "bare_env\<lparr>crontab_l := (\<lambda>_. Inl OSError)\<rparr>"
  have l: "os_listdir ?env ''/nowhere'' = Inl OSError"
    and c: "crontab_l ?env (whoami ?env) = Inr [backup_line]"
    by (simp_all add: demo_env_def)
  have lp: "UserSpool_loop ?env ''/nowhere'' [] [] empty_heap = Inr ([], empty_heap)" by simp
  have z: "ntabs empty_heap = 0" by (simp add: empty_heap_def)
  have t: "\<And>h'. map (job_at h') (crons (tab_at h' 0)) = [backup_line]
            \<Longrightarrow> tab_truth ?env (tab_at h' 0)"
    by (auto simp add: demo_env_def)
  from UserSpool_fallback[where env = ?env and loc = "''/nowhere''" and names = "[]"
      and h = empty_heap and ?h1.0 = empty_heap] l lp c z
  obtain h' where
    "UserSpool ?env ''/nowhere'' empty_heap = Inr (if tab_truth ?env (tab_at h' 0) then [0] else [], h')"
    "binding h' 0 = (UserTrue, None)"
    "map (job_at h') (crons (tab_at h' 0)) = [backup_line]"
    by (auto simp add: backup_line_def)
  with t[of h'] have "UserSpool ?env ''/nowhere'' empty_heap = Inr ([0], h')
         \<and> binding h' 0 = (UserTrue, None)
         \<and> map (job_at h') (crons (tab_at h' 0)) = [backup_line]"
    by simp
  then have 1: "\<exists>h'. UserSpool ?env ''/nowhere'' empty_heap = Inr ([0], h')
         \<and> binding h' 0 = (UserTrue, None)
         \<and> map (job_at h') (crons (tab_at h' 0)) = [backup_line]"
    by (rule exI)
  have bl: "os_listdir bare_env ''/var/spool/cron/crontabs/'' = Inl OSError"
    and bl': "os_listdir ?bad ''/var/spool/cron/crontabs/'' = Inl OSError"
    and bc: "crontab_l ?bad (whoami ?bad) = Inl OSError"
    by (simp_all add: bare_env_def)
  have blp: "UserSpool_loop ?bad ''/var/spool/cron/crontabs/'' [] [] empty_heap = Inr ([], empty_heap)"
    by simp
  from UserSpool_fallback[where env = ?bad and loc = "''/var/spool/cron/crontabs/''"
      and names = "[]" and h = empty_heap and ?h1.0 = empty_heap] bl' blp bc
  have 2: "UserSpool ?bad ''/var/spool/cron/crontabs/'' empty_heap = Inl OSError" by blast
  from l lp c 1 bl bc 2 show ?thesis by (intro conjI)
qed

text \<open>
  The claim as stated fails: on the machine with no cron location, where the
  invoking user has no job and a tab with no job is false, \<open>UserSpool\<close>
  returns no tab.
\<close>

theorem UserSpool_zero_handles:
  "os_listdir bare_env ''/var/spool/cron/crontabs/'' = Inl OSError
   \<and> crontab_l bare_env (whoami bare_env) = Inr []
   \<and> map_sum id fst (UserSpool bare_env ''/var/spool/cron/crontabs/'' empty_heap) = Inr []"
  by (simp add: bare_env_def demo_env_def UserSpool_def listdir_def CronTab_def read_lines_def
      alloc_tab_def empty_heap_def)



subsection \<open>Stores that grow\<close>

lemma CronTab_jobs_cron:
  assumes "CronTab env u f h = Inr (t, h')"
  shows "\<forall>j\<in>set (crons (tab_at h' t)). j < njobs h' \<and> cron (job_at h' j) = t"
proof -
  obtain ls where ls: "read_lines env u f = Inr ls"
    using assms by (cases "read_lines env u f") (simp_all add: CronTab_def)
  from CronTab_Inr[OF ls, of h] assms
  have t: "t = ntabs h" and h': "h' = load_lines (ntabs h) ls (snd (alloc_tab u f h))"
    by simp_all
  show ?thesis
  proof
    fix j assume "j \<in> set (crons (tab_at h' t))"
    then have "njobs h \<le> j" "j < njobs h + length ls" by (simp_all add: h' t)
    then obtain i where i: "j = njobs h + i" "i < length ls"
      by (metis add_diff_inverse_nat nat_add_left_cancel_less not_less)
    from load_lines_new_job[OF i(2), of t "snd (alloc_tab u f h)"]
    show "j < njobs h' \<and> cron (job_at h' j) = t" using i by (simp add: h' t)
  qed
qed

lemma extends_refl: "extends h h"
  by (simp add: extends_def)

lemma extends_trans: "extends h h1 \<Longrightarrow> extends h1 h2 \<Longrightarrow> extends h h2"
  by (auto simp add: extends_def)

lemma tabs_ok_Nil: "tabs_ok h []"
  by (simp add: tabs_ok_def)

lemma tabs_ok_extends: "tabs_ok h ts \<Longrightarrow> extends h h' \<Longrightarrow> tabs_ok h' ts"
  by (fastforce simp add: tabs_ok_def extends_def)

lemma tabs_ok_append: "tabs_ok h (xs @ ys) \<longleftrightarrow> tabs_ok h xs \<and> tabs_ok h ys"
  by (auto simp add: tabs_ok_def)

lemma CronTab_extends:
  assumes "CronTab env u f h = Inr (t, h')"
  shows "extends h h'" and "tabs_ok h' [t]"
proof -
  note r = CronTab_result[OF assms]
  show "extends h h'" using r(2,3,6,7) by (simp add: extends_def)
  show "tabs_ok h' [t]" using r(1,2) CronTab_jobs_cron[OF assms]
    by (simp add: tabs_ok_def)
qed

lemma generate_extends:
  assumes "generate env loc n h = Inr (t, h')"
  shows "extends h h'" and "tabs_ok h' [t]"
proof -
  from assms obtain u f where "CronTab env u f h = Inr (t, h')"
    by (auto simp add: generate_def Let_def split: sum.splits if_splits)
  then show "extends h h'" and "tabs_ok h' [t]" by (rule CronTab_extends)+
qed

lemma UserSpool_loop_extends:
  "UserSpool_loop env loc names self h = Inr (self', h')
   \<Longrightarrow> extends h h' \<and> (\<exists>ts. self' = self @ ts \<and> tabs_ok h' ts)"
proof (induction names arbitrary: self h)
  case Nil
  then show ?case by (simp add: extends_refl tabs_ok_Nil)
next
  case (Cons n rest)
  from Cons.prems obtain t h1 where
    g: "generate env loc n h = Inr (t, h1)"
    and r: "UserSpool_loop env loc rest
              (if tab_truth env (tab_at h1 t) then self @ [t] else self) h1 = Inr (self', h')"
    by (auto split: sum.splits)
  note e = generate_extends[OF g]
  from Cons.IH[OF r] obtain ts where
    e1: "extends h1 h'"
    and ts: "self' = (if tab_truth env (tab_at h1 t) then self @ [t] else self) @ ts"
      "tabs_ok h' ts"
    by blast
  have "extends h h'" using e(1) e1 by (rule extends_trans)
  moreover have "\<exists>us. self' = self @ us \<and> tabs_ok h' us"
  proof (cases "tab_truth env (tab_at h1 t)")
    case True
    have "tabs_ok h' ([t] @ ts)"
      using tabs_ok_extends[OF e(2) e1] ts(2) unfolding tabs_ok_append by simp
    then show ?thesis using ts(1) True by auto
  next
    case False
    then show ?thesis using ts by auto
  qed
  ultimately show ?case by blast
qed

lemma UserSpool_extends:
  assumes "UserSpool env loc h = Inr (ts, h')"
  shows "extends h h'" and "tabs_ok h' ts"
proof -
  from assms obtain names self h1 where
    l: "UserSpool_loop env loc names [] h = Inr (self, h1)"
    and r: "(if self = [] then
                 (case CronTab env UserTrue None h1 of
                    Inl e \<Rightarrow> Inl e
                  | Inr (tab, h2) \<Rightarrow>
                      Inr (if tab_truth env (tab_at h2 tab) then [tab] else [], h2))
               else Inr (self, h1)) = Inr (ts, h')"
    by (auto simp add: UserSpool_def split: sum.splits)
  from UserSpool_loop_extends[OF l] have e: "extends h h1" and f: "tabs_ok h1 self" by auto
  show "extends h h'" and "tabs_ok h' ts"
  proof -
    have "extends h h' \<and> tabs_ok h' ts"
    proof (cases "self = []")
      case False
      then show ?thesis using r e f by simp
    next
      case True
      with r obtain tab where c: "CronTab env UserTrue None h1 = Inr (tab, h')"
        and ts: "ts = (if tab_truth env (tab_at h' tab) then [tab] else [])"
        by (auto split: sum.splits)
      note ce = CronTab_extends[OF c]
      have "tabs_ok h' ts" using ts ce(2) by (simp add: tabs_ok_Nil)
      then show ?thesis using extends_trans[OF e ce(1)] by simp
    qed
    then show "extends h h'" and "tabs_ok h' ts" by simp_all
  qed
qed

lemma SystemTab_loop_extends:
  "SystemTab_loop env loc names self h = Inr (self', h')
   \<Longrightarrow> extends h h' \<and> (\<exists>ts. self' = self @ ts \<and> tabs_ok h' ts)"
proof (induction names arbitrary: self h)
  case Nil
  then show ?case by (simp add: extends_refl tabs_ok_Nil)
next
  case (Cons item rest)
  from Cons.prems obtain c cs where item: "item = c # cs" by (cases item) auto
  show ?case
  proof (cases "c = CHR ''.''")
    case True
    then show ?thesis using Cons item by simp
  next
    case False
    with Cons.prems item obtain t h1 where
      g: "CronTab env UserFalse (Some (path_join loc item)) h = Inr (t, h1)"
      and r: "SystemTab_loop env loc rest (self @ [t]) h1 = Inr (self', h')"
      by (auto split: sum.splits)
    note e = CronTab_extends[OF g]
    from Cons.IH[OF r] obtain ts where
      e1: "extends h1 h'" and ts: "self' = (self @ [t]) @ ts" "tabs_ok h' ts"
      by blast
    have "tabs_ok h' ([t] @ ts)"
      using tabs_ok_extends[OF e(2) e1] ts(2) unfolding tabs_ok_append by simp
    then show ?thesis using ts(1) extends_trans[OF e(1) e1] by auto
  qed
qed

lemma SystemTab_extends:
  assumes "SystemTab env loc h = Inr (ts, h')"
  shows "extends h h'" and "tabs_ok h' ts"
proof -
  have "extends h h' \<and> tabs_ok h' ts"
  proof (cases "os_isdir env loc")
    case True
    with assms obtain names where "SystemTab_loop env loc names [] h = Inr (ts, h')"
      by (auto simp add: SystemTab_def split: sum.splits)
    from SystemTab_loop_extends[OF this] show ?thesis by simp
  next
    case False
    show ?thesis
    proof (cases "os_isfile env loc")
      case True
      with False assms obtain t where c: "CronTab env UserFalse (Some loc) h = Inr (t, h')"
        and "ts = [t]"
        by (auto simp add: SystemTab_def split: sum.splits)
      then show ?thesis using CronTab_extends[OF c] by simp
    next
      case f: False
      with False assms show ?thesis
        by (simp add: SystemTab_def extends_refl tabs_ok_Nil)
    qed
  qed
  then show "extends h h'" and "tabs_ok h' ts" by simp_all
qed

subsection \<open>AnaCronTab on the store\<close>

lemma new_fields:
  "fst (new t c u h) = njobs h"
  "njobs (snd (new t c u h)) = Suc (njobs h)"
  "ntabs (snd (new t c u h)) = ntabs h"
  "job_at (snd (new t c u h)) =
     (job_at h)(njobs h := \<lparr>command = c, user = u, comment = [], slices = every_minute, cron = t\<rparr>)"
  "tab_at (snd (new t c u h)) =
     (tab_at h)(t := (tab_at h t)\<lparr>crons := crons (tab_at h t) @ [njobs h]\<rparr>)"
  by (simp_all add: new_def alloc_job_def tab_append_def)

lemma set_comment_fields [simp]:
  "tab_at (set_comment j c h) = tab_at h"
  "njobs (set_comment j c h) = njobs h"
  "ntabs (set_comment j c h) = ntabs h"
  "job_at (set_comment j c h) j' = (if j' = j then (job_at h j)\<lparr>comment := c\<rparr> else job_at h j')"
  by (simp_all add: set_comment_def)

lemma setall_fields [simp]:
  "tab_at (setall j other h) = tab_at h"
  "njobs (setall j other h) = njobs h"
  "ntabs (setall j other h) = ntabs h"
  "job_at (setall j other h) j' =
     (if j' = j then (job_at h j)\<lparr>slices := slices (job_at h other)\<rparr> else job_at h j')"
  by (simp_all add: setall_def)

lemma delete_fields [simp]:
  "job_at (delete j h) = job_at h"
  "njobs (delete j h) = njobs h"
  "ntabs (delete j h) = ntabs h"
  "tab_at (delete j h) t =
     (if t = cron (job_at h j) then (tab_at h t)\<lparr>crons := removeAll j (crons (tab_at h t))\<rparr>
      else tab_at h t)"
  by (simp_all add: delete_def Let_def)

lemma AnaCronTab_add_skip:
  "item \<noteq> [] \<Longrightarrow> \<not> absorbed env loc item \<Longrightarrow> AnaCronTab_add env loc seed anajob item h = Inr h"
  by (cases item) (auto simp add: AnaCronTab_add_def absorbed_def)

lemma AnaCronTab_add_absorb:
  assumes "item \<noteq> []" and "absorbed env loc item" and "anajob < njobs h"
  shows "\<exists>h'. AnaCronTab_add env loc seed anajob item h = Inr h'
           \<and> njobs h' = Suc (njobs h) \<and> ntabs h' = ntabs h
           \<and> job_at h' = (job_at h)(njobs h := absorbed_job loc seed (job_at h anajob) item)
           \<and> tab_at h' = (tab_at h)(seed := (tab_at h seed)\<lparr>crons := crons (tab_at h seed) @ [njobs h]\<rparr>)"
proof -
  from assms(1) obtain c cs where item: "item = c # cs" by (cases item) auto
  from assms(2) have a: "item \<noteq> ''0anacron''" "c \<noteq> CHR ''.''" "os_access_x env (path_join loc item)"
    using item by (auto simp add: absorbed_def)
  let ?h1 = "snd (new seed (path_join loc item) (user (job_at h anajob)) h)"
  let ?h' = "setall (njobs h) anajob (set_comment (njobs h) (''Anacron '' @ last_segment loc) ?h1)"
  have r: "AnaCronTab_add env loc seed anajob item h = Inr ?h'"
    using a unfolding item
    by (auto simp add: AnaCronTab_add_def new_def alloc_job_def split: prod.splits)
  have ne: "anajob \<noteq> njobs h" using assms(3) by simp
  have j: "job_at ?h' = (job_at h)(njobs h := absorbed_job loc seed (job_at h anajob) item)"
    using ne by (auto simp add: new_fields absorbed_job_def fun_eq_iff)
  show ?thesis using r j by (simp add: new_fields)
qed

lemma AnaCronTab_loop_result:
  assumes "[] \<notin> set names" and "anajob < njobs h"
  shows "\<exists>h'. AnaCronTab_loop env loc seed anajob names h = Inr h'
           \<and> ntabs h' = ntabs h
           \<and> njobs h' = njobs h + length (filter (absorbed env loc) names)
           \<and> (\<forall>t. t \<noteq> seed \<longrightarrow> tab_at h' t = tab_at h t)
           \<and> tab_at h' seed = (tab_at h seed)\<lparr>crons := crons (tab_at h seed) @ [njobs h ..< njobs h']\<rparr>
           \<and> (\<forall>j<njobs h. job_at h' j = job_at h j)
           \<and> map (job_at h') [njobs h ..< njobs h']
               = map (absorbed_job loc seed (job_at h anajob)) (filter (absorbed env loc) names)"
  using assms
proof (induction names arbitrary: h)
  case Nil
  then show ?case by simp
next
  case (Cons item rest)
  then have ne: "item \<noteq> []" and rest: "[] \<notin> set rest" by auto
  show ?case
  proof (cases "absorbed env loc item")
    case False
    from AnaCronTab_add_skip[OF ne False] Cons.IH[OF rest Cons.prems(2)] False
    show ?thesis by simp
  next
    case True
    from AnaCronTab_add_absorb[OF ne True Cons.prems(2), of seed] obtain h1 where
      a: "AnaCronTab_add env loc seed anajob item h = Inr h1"
      and c: "njobs h1 = Suc (njobs h)" "ntabs h1 = ntabs h"
      and j: "job_at h1 = (job_at h)(njobs h := absorbed_job loc seed (job_at h anajob) item)"
      and t: "tab_at h1 = (tab_at h)(seed := (tab_at h seed)\<lparr>crons := crons (tab_at h seed) @ [njobs h]\<rparr>)"
      by blast
    have lt: "anajob < njobs h1" using Cons.prems(2) c by simp
    from Cons.IH[OF rest lt] obtain h' where
      l: "AnaCronTab_loop env loc seed anajob rest h1 = Inr h'"
      and c': "ntabs h' = ntabs h1" "njobs h' = njobs h1 + length (filter (absorbed env loc) rest)"
      and t': "\<forall>t. t \<noteq> seed \<longrightarrow> tab_at h' t = tab_at h1 t"
        "tab_at h' seed = (tab_at h1 seed)\<lparr>crons := crons (tab_at h1 seed) @ [njobs h1 ..< njobs h']\<rparr>"
      and j': "\<forall>j<njobs h1. job_at h' j = job_at h1 j"
        "map (job_at h') [njobs h1 ..< njobs h']
               = map (absorbed_job loc seed (job_at h1 anajob)) (filter (absorbed env loc) rest)"
      by blast
    have same: "job_at h1 anajob = job_at h anajob" using j Cons.prems(2) by simp
    have lt': "njobs h < njobs h'" using c c' by simp
    have upt: "[njobs h ..< njobs h'] = njobs h # [njobs h1 ..< njobs h']"
      unfolding c(1) by (rule upt_conv_Cons[OF lt'])
    have first: "job_at h' (njobs h) = absorbed_job loc seed (job_at h anajob) item"
      using j' c j by simp
    have "AnaCronTab_loop env loc seed anajob (item # rest) h = Inr h'" using a l by simp
    moreover have "ntabs h' = ntabs h" using c c' by simp
    moreover have "njobs h' = njobs h + length (filter (absorbed env loc) (item # rest))"
      using c c' True by simp
    moreover have "\<forall>t. t \<noteq> seed \<longrightarrow> tab_at h' t = tab_at h t" using t' t by simp
    moreover have "tab_at h' seed = (tab_at h seed)\<lparr>crons := crons (tab_at h seed) @ [njobs h ..< njobs h']\<rparr>"
      using t'(2) t upt by simp
    moreover have "\<forall>j<njobs h. job_at h' j = job_at h j" using j' c j by simp
    moreover have "map (job_at h') [njobs h ..< njobs h']
               = map (absorbed_job loc seed (job_at h anajob)) (filter (absorbed env loc) (item # rest))"
      using True upt first j'(2) same by simp
    ultimately show ?thesis by blast
  qed
qed

subsection \<open>A read of the merged view\<close>

lemma fold_all_tab_job_weak:
  "job_at (fold (all_tab env v) ts h) j = job_at h j
   \<or> (\<exists>u. job_at (fold (all_tab env v) ts h) j = default_user u (job_at h j))"
proof (induction ts arbitrary: h)
  case Nil
  show ?case by simp
next
  case (Cons t ts)
  from Cons[of "all_tab env v t h"] show ?case by (auto split: if_splits)
qed

lemma default_user_Some [simp]: "\<exists>y. user (default_user u jb) = Some y"
  by (simp add: default_user_def)

text \<open>What a read of \<open>all\<close> does, in any state.\<close>

lemma CronTabs_all_frame:
  assumes "CronTabs_all env a h = (v, a', h')"
  shows "items a' = items a" and "njobs h' = njobs h" and "cached_all a' = Some v"
    and "ntabs h \<le> ntabs h'"
    and "\<And>t. t \<noteq> v \<Longrightarrow> tab_at h' t = tab_at h t"
    and "\<And>j. job_at h' j = job_at h j
            \<or> (user (job_at h j) = None \<and> (\<exists>u. job_at h' j = (job_at h j)\<lparr>user := Some u\<rparr>))"
    and "\<And>j. cron (job_at h' j) = cron (job_at h j)"
proof -
  show "items a' = items a" and "njobs h' = njobs h" and "cached_all a' = Some v"
    and "ntabs h \<le> ntabs h'"
    using assms by (auto simp add: CronTabs_all_def alloc_tab_def split: option.splits)
  show "\<And>t. t \<noteq> v \<Longrightarrow> tab_at h' t = tab_at h t"
    using assms
    by (auto simp add: CronTabs_all_def alloc_tab_def fold_all_tab_other split: option.splits)
  show j: "\<And>j. job_at h' j = job_at h j
            \<or> (user (job_at h j) = None \<and> (\<exists>u. job_at h' j = (job_at h j)\<lparr>user := Some u\<rparr>))"
  proof -
    fix j
    show "job_at h' j = job_at h j
            \<or> (user (job_at h j) = None \<and> (\<exists>u. job_at h' j = (job_at h j)\<lparr>user := Some u\<rparr>))"
    proof (cases "cached_all a")
      case (Some v0)
      then show ?thesis using assms by (simp add: CronTabs_all_def)
    next
      case None
      then have h': "h' = fold (all_tab env (ntabs h)) (items a) (snd (alloc_tab UserFalse None h))"
        using assms CronTabs_all_rebuild[of a env h] by auto
      from fold_all_tab_job_weak[of env "ntabs h" "items a" "snd (alloc_tab UserFalse None h)" j]
      show ?thesis unfolding h' by (auto simp add: default_user_def split: if_splits)
    qed
  qed
  show "\<And>j. cron (job_at h' j) = cron (job_at h j)"
  proof -
    fix j from j[of j] show "cron (job_at h' j) = cron (job_at h j)" by auto
  qed
qed

text \<open>In a rebuilt view every job has a user, whatever the store held.\<close>

lemma fold_all_job_view_users:
  assumes "\<forall>j\<in>set (crons (tab_at h v)). user (job_at h j) \<noteq> None"
  shows "\<forall>j\<in>set (crons (tab_at (fold (all_job env v t) js h) v)).
           user (job_at (fold (all_job env v t) js h) j) \<noteq> None"
  using assms
proof (induction js arbitrary: h)
  case Nil
  then show ?case by simp
next
  case (Cons j0 js)
  have "\<forall>j\<in>set (crons (tab_at (all_job env v t j0 h) v)). user (job_at (all_job env v t j0 h) j) \<noteq> None"
    using Cons.prems by auto
  from Cons.IH[OF this] show ?case by simp
qed

lemma fold_all_tab_view_users:
  assumes "\<forall>j\<in>set (crons (tab_at h v)). user (job_at h j) \<noteq> None"
  shows "\<forall>j\<in>set (crons (tab_at (fold (all_tab env v) ts h) v)).
           user (job_at (fold (all_tab env v) ts h) j) \<noteq> None"
  using assms
proof (induction ts arbitrary: h)
  case Nil
  then show ?case by simp
next
  case (Cons t ts)
  have "\<forall>j\<in>set (crons (tab_at (all_tab env v t h) v)). user (job_at (all_tab env v t h) j) \<noteq> None"
    using fold_all_job_view_users[OF Cons.prems, of env t "crons (tab_at h t)"]
    by (simp only: all_tab_def)
  from Cons.IH[OF this] show ?case by simp
qed

lemma CronTabs_all_rebuilt_users:
  assumes "cached_all a = None" and "CronTabs_all env a h = (v, a', h')"
  shows "\<forall>j\<in>set (crons (tab_at h' v)). user (job_at h' j) \<noteq> None"
proof -
  let ?h1 = "snd (alloc_tab UserFalse None h)"
  have v: "v = ntabs h" and h': "h' = fold (all_tab env (ntabs h)) (items a) ?h1"
    using assms CronTabs_all_rebuild[of a env h] by auto
  have "\<forall>j\<in>set (crons (tab_at ?h1 (ntabs h))). user (job_at ?h1 j) \<noteq> None" by simp
  from fold_all_tab_view_users[OF this, of env "items a"] show ?thesis
    unfolding v h' .
qed

text \<open>A read in a state that is in order.\<close>

lemma CronTabs_all_ok:
  assumes ok: "state_ok (a, h)" and r: "CronTabs_all env a h = (v, a', h')"
  shows "state_ok (a', h')"
    and "crons (tab_at h' v) = concat (map (\<lambda>t. crons (tab_at h t)) (items a))"
    and "\<forall>t\<in>set (items a). tab_at h' t = tab_at h t"
    and "\<forall>j\<in>set (crons (tab_at h' v)). user (job_at h' j) \<noteq> None"
    and "v \<notin> set (items a)"
    and "cached_all a = None \<Longrightarrow> v = ntabs h \<and>
           (\<forall>j. job_at h' j =
             (case find (\<lambda>t. j \<in> set (crons (tab_at h t))) (items a) of
                None \<Rightarrow> job_at h j
              | Some t \<Rightarrow> default_user (user_or_unknown env (tuser (tab_at h t))) (job_at h j)))"
proof -
  note f = CronTabs_all_frame[OF r]
  have lt: "\<forall>t\<in>set (items a). t < ntabs h" using ok by (auto simp add: state_ok_def tabs_ok_def)
  have all: "state_ok (a', h')
    \<and> crons (tab_at h' v) = concat (map (\<lambda>t. crons (tab_at h t)) (items a))
    \<and> (\<forall>t\<in>set (items a). tab_at h' t = tab_at h t)
    \<and> (\<forall>j\<in>set (crons (tab_at h' v)). user (job_at h' j) \<noteq> None)
    \<and> v \<notin> set (items a)"
  proof (cases "cached_all a")
    case (Some v0)
    then have "v = v0" "a' = a" "h' = h" using r by (simp_all add: CronTabs_all_def)
    then show ?thesis using ok Some by (auto simp add: state_ok_def tabs_ok_def)
  next
    case None
    let ?h1 = "snd (alloc_tab UserFalse None h)"
    have v: "v = ntabs h" and h': "h' = fold (all_tab env (ntabs h)) (items a) ?h1"
      and a': "a' = a\<lparr>cached_all := Some (ntabs h)\<rparr>"
      using None r CronTabs_all_rebuild[of a env h] by auto
    have vn: "v \<notin> set (items a)" using lt v by auto
    have ne: "\<And>x. x \<in> set (items a) \<Longrightarrow> (x = ntabs h) = False" using lt by auto
    have view: "crons (tab_at h' v) = concat (map (\<lambda>t. crons (tab_at h t)) (items a))"
      using vn unfolding v h' by (simp add: fold_all_tab_view ne cong: map_cong)
    have same: "\<forall>t\<in>set (items a). tab_at h' t = tab_at h t"
      using lt unfolding h' by (auto simp add: fold_all_tab_other)
    have users: "\<forall>j\<in>set (crons (tab_at h' v)). user (job_at h' j) \<noteq> None"
      using CronTabs_all_rebuilt_users[OF None r] .
    have "state_ok (a', h')"
      unfolding state_ok_def tabs_ok_def
    proof (clarsimp, intro conjI ballI allI impI)
      fix t assume "t \<in> set (items a')"
      then have t: "t \<in> set (items a)" using f(1) by simp
      then show "t < ntabs h'" using lt f(4) by fastforce
      fix j assume "j \<in> set (crons (tab_at h' t))"
      then have j: "j \<in> set (crons (tab_at h t))" using same t by simp
      then show "j < njobs h'" using ok t f(2) by (auto simp add: state_ok_def tabs_ok_def)
      show "cron (job_at h' j) = t" using ok t j f(7) by (auto simp add: state_ok_def tabs_ok_def)
    next
      fix w assume "cached_all a' = Some w"
      then have w: "w = v" using f(3) by simp
      show "w < ntabs h'" using w v h' by simp
      show "w \<notin> set (items a')" using w vn f(1) by simp
      show "crons (tab_at h' w) = concat (map (\<lambda>t. crons (tab_at h' t)) (items a'))"
        using view same w f(1) by (simp cong: map_cong)
      show "\<And>j. j \<in> set (crons (tab_at h' w)) \<Longrightarrow> \<exists>y. user (job_at h' j) = Some y"
        using users w by auto
    qed
    then show ?thesis using view same users vn by simp
  qed
  then show "state_ok (a', h')"
    and "crons (tab_at h' v) = concat (map (\<lambda>t. crons (tab_at h t)) (items a))"
    and "\<forall>t\<in>set (items a). tab_at h' t = tab_at h t"
    and "\<forall>j\<in>set (crons (tab_at h' v)). user (job_at h' j) \<noteq> None"
    and "v \<notin> set (items a)"
    by simp_all
  show "cached_all a = None \<Longrightarrow> v = ntabs h \<and>
           (\<forall>j. job_at h' j =
             (case find (\<lambda>t. j \<in> set (crons (tab_at h t))) (items a) of
                None \<Rightarrow> job_at h j
              | Some t \<Rightarrow> default_user (user_or_unknown env (tuser (tab_at h t))) (job_at h j)))"
  proof -
    assume None: "cached_all a = None"
    let ?h1 = "snd (alloc_tab UserFalse None h)"
    have v: "v = ntabs h" and h': "h' = fold (all_tab env (ntabs h)) (items a) ?h1"
      using None r CronTabs_all_rebuild[of a env h] by auto
    have vn: "ntabs h \<notin> set (items a)" using lt by auto
    have ne: "\<And>x. x \<in> set (items a) \<Longrightarrow> (x = ntabs h) = False" using lt by auto
    have "\<And>j. job_at h' j =
             (case find (\<lambda>t. j \<in> set (crons (tab_at h t))) (items a) of
                None \<Rightarrow> job_at h j
              | Some t \<Rightarrow> default_user (user_or_unknown env (tuser (tab_at h t))) (job_at h j))"
    proof -
      fix j
      have fc: "find (\<lambda>t. j \<in> set (crons (tab_at ?h1 t))) (items a)
               = find (\<lambda>t. j \<in> set (crons (tab_at h t))) (items a)"
        by (simp add: ne cong: find_cong)
      show "job_at h' j =
             (case find (\<lambda>t. j \<in> set (crons (tab_at h t))) (items a) of
                None \<Rightarrow> job_at h j
              | Some t \<Rightarrow> default_user (user_or_unknown env (tuser (tab_at h t))) (job_at h j))"
      proof (cases "find (\<lambda>t. j \<in> set (crons (tab_at h t))) (items a)")
        case None
        then show ?thesis unfolding h' using fold_all_tab_job_at[OF vn, of env ?h1 j] fc by simp
      next
        case (Some t)
        then have "t \<in> set (items a)" by (auto simp add: find_Some_iff)
        then have "t \<noteq> ntabs h" using lt by auto
        then show ?thesis unfolding h' using fold_all_tab_job_at[OF vn, of env ?h1 j] fc Some by simp
      qed
    qed
    then show ?thesis using v by simp
  qed
qed

subsection \<open>What holds in every state\<close>

lemma state_ok_extends:
  assumes "state_ok (a, h)" and "extends h h'"
  shows "state_ok (a, h')"
proof -
  from assms(1) have t: "tabs_ok h (items a)" by (simp add: state_ok_def)
  have same: "\<forall>t\<in>set (items a). tab_at h' t = tab_at h t"
    using t assms(2) by (auto simp add: tabs_ok_def extends_def)
  have t': "tabs_ok h' (items a)" using t assms(2) by (rule tabs_ok_extends)
  moreover have "\<forall>v. cached_all a = Some v \<longrightarrow>
                 v < ntabs h' \<and> v \<notin> set (items a)
                 \<and> crons (tab_at h' v) = concat (map (\<lambda>t. crons (tab_at h' t)) (items a))
                 \<and> (\<forall>j\<in>set (crons (tab_at h' v)). user (job_at h' j) \<noteq> None)"
  proof (intro allI impI)
    fix v assume c: "cached_all a = Some v"
    with assms(1) have v: "v < ntabs h" "v \<notin> set (items a)"
      "crons (tab_at h v) = concat (map (\<lambda>t. crons (tab_at h t)) (items a))"
      "\<forall>j\<in>set (crons (tab_at h v)). user (job_at h j) \<noteq> None"
      by (simp_all add: state_ok_def)
    have tv: "tab_at h' v = tab_at h v" using v(1) assms(2) by (simp add: extends_def)
    have js: "\<forall>j\<in>set (crons (tab_at h v)). j < njobs h"
      using v(3) t by (auto simp add: tabs_ok_def)
    have "crons (tab_at h' v) = concat (map (\<lambda>t. crons (tab_at h' t)) (items a))"
      using tv v(3) same by (simp cong: map_cong)
    moreover have "\<forall>j\<in>set (crons (tab_at h' v)). user (job_at h' j) \<noteq> None"
      using tv v(4) js assms(2) by (simp add: extends_def)
    moreover have "v < ntabs h'" using v(1) assms(2) by (simp add: extends_def)
    ultimately show "v < ntabs h' \<and> v \<notin> set (items a)
                 \<and> crons (tab_at h' v) = concat (map (\<lambda>t. crons (tab_at h' t)) (items a))
                 \<and> (\<forall>j\<in>set (crons (tab_at h' v)). user (job_at h' j) \<noteq> None)"
      using v(2) by simp
  qed
  ultimately show ?thesis by (simp add: state_ok_def)
qed

lemma fold_append_tab:
  "fold append_tab ts a =
     a\<lparr>items := items a @ ts, cached_all := (if ts = [] then cached_all a else None)\<rparr>"
  by (induction ts arbitrary: a) (simp_all add: append_tab_def)

lemma state_ok_appended:
  assumes "state_ok (a, h)" and "tabs_ok h ts"
  shows "state_ok (fold append_tab ts a, h)"
proof (cases "ts = []")
  case True
  then show ?thesis using assms by (simp add: fold_append_tab)
next
  case False
  then show ?thesis using assms by (simp add: fold_append_tab state_ok_def tabs_ok_append)
qed

lemma extends_alloc_tab: "extends h (snd (alloc_tab u f h))"
  by (simp add: extends_def)

text \<open>The seeded tab after the read of \<open>all\<close> that follows its allocation.\<close>

lemma seed_after_all:
  assumes "CronTabs_all env a (snd (alloc_tab u f h)) = (v, a1, h2)"
  shows "tab_at h2 (ntabs h) = \<lparr>tuser = u, tabfile = f, crons = []\<rparr>"
    and "\<forall>t<ntabs h. tab_at h2 t = tab_at h t"
    and "njobs h2 = njobs h" and "ntabs h < ntabs h2"
proof -
  let ?h1 = "snd (alloc_tab u f h)"
  note f = CronTabs_all_frame[OF assms]
  show "njobs h2 = njobs h" using f(2) by simp
  show "ntabs h < ntabs h2" using f(4) by simp
  show "tab_at h2 (ntabs h) = \<lparr>tuser = u, tabfile = f, crons = []\<rparr>"
    and "\<forall>t<ntabs h. tab_at h2 t = tab_at h t"
  proof -
    have "tab_at h2 (ntabs h) = \<lparr>tuser = u, tabfile = f, crons = []\<rparr>
        \<and> (\<forall>t<ntabs h. tab_at h2 t = tab_at h t)"
    proof (cases "cached_all a")
      case (Some v0)
      then have "h2 = ?h1" using assms by (simp add: CronTabs_all_def)
      then show ?thesis by simp
    next
      case None
      then have "v = ntabs ?h1" using assms CronTabs_all_rebuild[of a env ?h1] by auto
      then have v: "v = Suc (ntabs h)" by simp
      then show ?thesis using f(5) by simp
    qed
    then show "tab_at h2 (ntabs h) = \<lparr>tuser = u, tabfile = f, crons = []\<rparr>"
      and "\<forall>t<ntabs h. tab_at h2 t = tab_at h t" by simp_all
  qed
qed

lemma AnaCronTab_noop:
  "AnaCronTab env loc None h = Inr ([], None, h)"
  "items a = [] \<or> \<not> os_isdir env loc \<Longrightarrow> AnaCronTab env loc (Some a) h = Inr ([], Some a, h)"
  by (auto simp add: AnaCronTab_def)

lemma AnaCronTab_no_template:
  assumes "items a \<noteq> []" and "os_isdir env loc"
    and r: "CronTabs_all env a (snd (alloc_tab UserFalse None h)) = (v, a1, h2)"
    and "find_command v loc h2 = []"
  shows "AnaCronTab env loc (Some a) h = Inr ([ntabs h], Some a1, h2)"
    and "binding h2 (ntabs h) = (UserFalse, None)"
    and "crons (tab_at h2 (ntabs h)) = []"
    and "items a1 = items a"
    and "njobs h2 = njobs h"
    and "\<forall>t<ntabs h. tab_at h2 t = tab_at h t"
    and "\<And>j. job_at h2 j = job_at h j
            \<or> (user (job_at h j) = None \<and> (\<exists>u. job_at h2 j = (job_at h j)\<lparr>user := Some u\<rparr>))"
proof -
  note s = seed_after_all[OF r]
  note f = CronTabs_all_frame[OF r]
  show "AnaCronTab env loc (Some a) h = Inr ([ntabs h], Some a1, h2)"
    using assms by (simp add: AnaCronTab_def alloc_tab_def)
  show "binding h2 (ntabs h) = (UserFalse, None)" using s(1) by (simp add: binding_def)
  show "crons (tab_at h2 (ntabs h)) = []" using s(1) by simp
  show "items a1 = items a" using f(1) .
  show "njobs h2 = njobs h" using s(3) .
  show "\<forall>t<ntabs h. tab_at h2 t = tab_at h t" using s(2) .
  show "\<And>j. job_at h2 j = job_at h j
            \<or> (user (job_at h j) = None \<and> (\<exists>u. job_at h2 j = (job_at h j)\<lparr>user := Some u\<rparr>))"
    using f(6) by simp
qed

lemma find_command_subset: "set (find_command v pat h) \<subseteq> set (crons (tab_at h v))"
  by (auto simp add: find_command_def)

lemma AnaCronTab_template:
  assumes ok: "state_ok (a, h)"
    and ne: "items a \<noteq> []" and dir: "os_isdir env loc"
    and ls: "os_listdir env loc = Inr names" and names: "[] \<notin> set names"
    and r: "CronTabs_all env a (snd (alloc_tab UserFalse None h)) = (v, a1, h2)"
    and fc: "find_command v loc h2 = anajob # others"
  shows "\<exists>h4. AnaCronTab env loc (Some a) h = Inr ([ntabs h], Some a1, h4)
           \<and> binding h4 (ntabs h) = (UserFalse, None)
           \<and> map (job_at h4) (crons (tab_at h4 (ntabs h)))
               = map (absorbed_job loc (ntabs h) (job_at h2 anajob)) (filter (absorbed env loc) names)
           \<and> distinct (crons (tab_at h4 (ntabs h)))
           \<and> (\<forall>j\<in>set (crons (tab_at h4 (ntabs h))). njobs h \<le> j \<and> j < njobs h4)
           \<and> job_at h4 anajob = job_at h2 anajob
           \<and> (\<exists>t\<in>set (items a). anajob \<in> set (crons (tab_at h t)))
           \<and> (\<forall>t\<in>set (items a). crons (tab_at h4 t) = removeAll anajob (crons (tab_at h t)))
           \<and> (\<forall>j<njobs h. cron (job_at h4 j) = cron (job_at h j))
           \<and> ntabs h < ntabs h4 \<and> njobs h \<le> njobs h4 \<and> items a1 = items a"
proof -
  let ?seed = "ntabs h"
  let ?h1 = "snd (alloc_tab UserFalse None h)"
  have ok1: "state_ok (a, ?h1)" using ok extends_alloc_tab by (rule state_ok_extends)
  note s = seed_after_all[OF r]
  note f = CronTabs_all_frame[OF r]
  note o = CronTabs_all_ok[OF ok1 r]
  have tk: "tabs_ok h (items a)" using ok by (simp add: state_ok_def)
  have lt: "\<forall>t\<in>set (items a). t < ntabs h" using tk by (simp add: tabs_ok_def)
  have same2: "\<forall>t\<in>set (items a). tab_at h2 t = tab_at h t" using lt s(2) by simp
  have "anajob \<in> set (crons (tab_at h2 v))" using fc find_command_subset[of v loc h2] by auto
  then have "anajob \<in> set (concat (map (\<lambda>t. crons (tab_at ?h1 t)) (items a)))" using o(2) by simp
  then obtain t0 where t0: "t0 \<in> set (items a)" "anajob \<in> set (crons (tab_at ?h1 t0))" by auto
  then have in0: "anajob \<in> set (crons (tab_at h t0))" using lt by auto
  have alt: "anajob < njobs h" and own: "cron (job_at h anajob) = t0"
    using tk t0(1) in0 by (auto simp add: tabs_ok_def)
  have only: "\<forall>t\<in>set (items a). t \<noteq> t0 \<longrightarrow> anajob \<notin> set (crons (tab_at h t))"
    using tk own by (auto simp add: tabs_ok_def)
  have cron2: "\<And>j. cron (job_at h2 j) = cron (job_at h j)" using f(7)[of] by simp
  have alt2: "anajob < njobs h2" using alt s(3) by simp
  from AnaCronTab_loop_result[OF names alt2, of env loc ?seed] obtain h3 where
    l: "AnaCronTab_loop env loc ?seed anajob names h2 = Inr h3"
    and c3: "ntabs h3 = ntabs h2" "njobs h3 = njobs h2 + length (filter (absorbed env loc) names)"
    and t3: "\<forall>t. t \<noteq> ?seed \<longrightarrow> tab_at h3 t = tab_at h2 t"
      "tab_at h3 ?seed = (tab_at h2 ?seed)\<lparr>crons := crons (tab_at h2 ?seed) @ [njobs h2 ..< njobs h3]\<rparr>"
    and j3: "\<forall>j<njobs h2. job_at h3 j = job_at h2 j"
      "map (job_at h3) [njobs h2 ..< njobs h3]
         = map (absorbed_job loc ?seed (job_at h2 anajob)) (filter (absorbed env loc) names)"
    by blast
  let ?h4 = "delete anajob h3"
  have own3: "cron (job_at h3 anajob) = t0" using j3(1) alt2 cron2 own by simp
  have t0seed: "t0 \<noteq> ?seed" using lt t0(1) by auto
  have seed4: "tab_at ?h4 ?seed = \<lparr>tuser = UserFalse, tabfile = None, crons = [njobs h2 ..< njobs h3]\<rparr>"
    using t3(2) s(1) own3 t0seed by simp
  have "AnaCronTab env loc (Some a) h = Inr ([?seed], Some a1, ?h4)"
    using ne dir r fc ls l by (simp add: AnaCronTab_def alloc_tab_def)
  moreover have "binding ?h4 ?seed = (UserFalse, None)" using seed4 by (simp add: binding_def)
  moreover have "map (job_at ?h4) (crons (tab_at ?h4 ?seed))
               = map (absorbed_job loc ?seed (job_at h2 anajob)) (filter (absorbed env loc) names)"
    using seed4 j3(2) by simp
  moreover have "distinct (crons (tab_at ?h4 ?seed))" using seed4 by simp
  moreover have "\<forall>j\<in>set (crons (tab_at ?h4 ?seed)). njobs h \<le> j \<and> j < njobs ?h4"
    using seed4 s(3) by simp
  moreover have "job_at ?h4 anajob = job_at h2 anajob" using j3(1) alt2 by simp
  moreover have "\<exists>t\<in>set (items a). anajob \<in> set (crons (tab_at h t))" using t0(1) in0 by blast
  moreover have "\<forall>t\<in>set (items a). crons (tab_at ?h4 t) = removeAll anajob (crons (tab_at h t))"
  proof
    fix t assume t: "t \<in> set (items a)"
    then have ts: "t \<noteq> ?seed" using lt by auto
    have t32: "tab_at h3 t = tab_at h t" using t3(1) ts same2 t by simp
    show "crons (tab_at ?h4 t) = removeAll anajob (crons (tab_at h t))"
    proof (cases "t = t0")
      case True
      then show ?thesis using own3 t32 by simp
    next
      case False
      then have "anajob \<notin> set (crons (tab_at h t))" using only t by simp
      then show ?thesis using own3 t32 False by simp
    qed
  qed
  moreover have "\<forall>j<njobs h. cron (job_at ?h4 j) = cron (job_at h j)"
    using j3(1) s(3) cron2 by simp
  moreover have "ntabs h < ntabs ?h4" using s(4) c3 by simp
  moreover have "njobs h \<le> njobs ?h4" using s(3) c3 by simp
  moreover have "items a1 = items a" using f(1) .
  ultimately show ?thesis by blast
qed

lemma AnaCronTab_loop_names:
  "AnaCronTab_loop env loc seed anajob names h = Inr h' \<Longrightarrow> [] \<notin> set names"
proof (induction names arbitrary: h)
  case Nil
  show ?case by simp
next
  case (Cons item rest)
  from Cons.prems obtain h1 where
    a: "AnaCronTab_add env loc seed anajob item h = Inr h1"
    and l: "AnaCronTab_loop env loc seed anajob rest h1 = Inr h'"
    by (auto split: sum.splits)
  have "item \<noteq> []" using a by (auto simp add: AnaCronTab_add_def)
  then show ?case using Cons.IH[OF l] by auto
qed

lemma AnaCronTab_ok:
  assumes ok: "state_ok (a, h)" and r: "AnaCronTab env loc (Some a) h = Inr (ts, bk, h')"
  shows "\<exists>a'. bk = Some a' \<and> state_ok (fold append_tab ts a', h')"
proof (cases "items a \<noteq> [] \<and> os_isdir env loc")
  case False
  then have "AnaCronTab env loc (Some a) h = Inr ([], Some a, h)"
    using AnaCronTab_noop(2)[of a env loc h] by auto
  then show ?thesis using r ok by simp
next
  case True
  let ?h1 = "snd (alloc_tab UserFalse None h)"
  obtain v a1 h2 where all: "CronTabs_all env a ?h1 = (v, a1, h2)"
    by (cases "CronTabs_all env a ?h1") auto
  have ok1: "state_ok (a, ?h1)" using ok extends_alloc_tab by (rule state_ok_extends)
  note o = CronTabs_all_ok[OF ok1 all]
  note s = seed_after_all[OF all]
  show ?thesis
  proof (cases "find_command v loc h2")
    case Nil
    from AnaCronTab_no_template[OF _ _ all Nil] True r
    have e: "ts = [ntabs h]" "bk = Some a1" "h' = h2" by simp_all
    have "tabs_ok h2 [ntabs h]" using s(1,4) by (simp add: tabs_ok_def)
    from state_ok_appended[OF o(1) this] show ?thesis using e by simp
  next
    case (Cons anajob others)
    from r True all Cons obtain names h3 where
      ls: "os_listdir env loc = Inr names"
      and l: "AnaCronTab_loop env loc (ntabs h) anajob names h2 = Inr h3"
      by (auto simp add: AnaCronTab_def alloc_tab_def split: sum.splits)
    have names: "[] \<notin> set names" using l by (rule AnaCronTab_loop_names)
    from AnaCronTab_template[OF ok _ _ ls names all Cons] True obtain h4 where
      t: "AnaCronTab env loc (Some a) h = Inr ([ntabs h], Some a1, h4)"
        "map (job_at h4) (crons (tab_at h4 (ntabs h)))
               = map (absorbed_job loc (ntabs h) (job_at h2 anajob)) (filter (absorbed env loc) names)"
        "\<forall>j\<in>set (crons (tab_at h4 (ntabs h))). njobs h \<le> j \<and> j < njobs h4"
        "\<forall>t\<in>set (items a). crons (tab_at h4 t) = removeAll anajob (crons (tab_at h t))"
        "\<forall>j<njobs h. cron (job_at h4 j) = cron (job_at h j)"
        "ntabs h < ntabs h4" "njobs h \<le> njobs h4" "items a1 = items a"
      by blast
    from t(1) r have e: "ts = [ntabs h]" "bk = Some a1" "h' = h4" by simp_all
    have tk: "tabs_ok h (items a)" using ok by (simp add: state_ok_def)
    have old: "tabs_ok h4 (items a)"
      unfolding tabs_ok_def
    proof (intro ballI conjI)
      fix t assume t1: "t \<in> set (items a)"
      then show "t < ntabs h4" using tk t(6) by (auto simp add: tabs_ok_def)
      fix j assume "j \<in> set (crons (tab_at h4 t))"
      then have j: "j \<in> set (crons (tab_at h t))" using t(4) t1 by auto
      then have jh: "j < njobs h" "cron (job_at h j) = t" using tk t1 by (auto simp add: tabs_ok_def)
      show "j < njobs h4" using jh(1) t(7) by simp
      show "cron (job_at h4 j) = t" using jh t(5) by simp
    qed
    have seed: "tabs_ok h4 [ntabs h]"
      unfolding tabs_ok_def
    proof (intro ballI conjI)
      fix s assume "s \<in> set [ntabs h]"
      then have s: "s = ntabs h" by simp
      show "s < ntabs h4" using s t(6) by simp
      fix j assume j: "j \<in> set (crons (tab_at h4 s))"
      then show "j < njobs h4" using t(3) s by simp
      from j have "job_at h4 j \<in> set (map (job_at h4) (crons (tab_at h4 (ntabs h))))"
        using s by simp
      then have "job_at h4 j \<in> set (map (absorbed_job loc (ntabs h) (job_at h2 anajob))
                    (filter (absorbed env loc) names))"
        using t(2) by simp
      then show "cron (job_at h4 j) = s" using s by (auto simp add: absorbed_job_def)
    qed
    have "state_ok (fold append_tab [ntabs h] a1, h4)"
      using old seed t(8) by (simp add: state_ok_def append_tab_def tabs_ok_append)
    then show ?thesis using e by simp
  qed
qed

lemma add_ok:
  assumes "state_ok s" and "add env cls loc s = Inr s'"
  shows "state_ok s'"
proof -
  obtain a h where s: "s = (a, h)" by (cases s) auto
  from assms(2) obtain ts a1 h1 where
    c: "construct env cls loc a h = Inr (ts, a1, h1)" and s': "s' = (fold append_tab ts a1, h1)"
    unfolding s by (auto simp add: add_def split: sum.splits)
  show ?thesis
  proof (cases cls)
    case UserSpoolCls
    with c have u: "UserSpool env loc h = Inr (ts, h1)" and a1: "a1 = a"
      by (auto simp add: construct_def split: sum.splits)
    note e = UserSpool_extends[OF u]
    have "state_ok (a, h1)" using assms(1) e(1) unfolding s by (rule state_ok_extends)
    from state_ok_appended[OF this e(2)] show ?thesis using s' a1 by simp
  next
    case SystemTabCls
    with c have u: "SystemTab env loc h = Inr (ts, h1)" and a1: "a1 = a"
      by (auto simp add: construct_def split: sum.splits)
    note e = SystemTab_extends[OF u]
    have "state_ok (a, h1)" using assms(1) e(1) unfolding s by (rule state_ok_extends)
    from state_ok_appended[OF this e(2)] show ?thesis using s' a1 by simp
  next
    case AnaCronTabCls
    with c obtain bk where u: "AnaCronTab env loc (Some a) h = Inr (ts, bk, h1)"
      and a1: "a1 = (case bk of None \<Rightarrow> a | Some a' \<Rightarrow> a')"
      by (auto simp add: construct_def split: sum.splits)
    from AnaCronTab_ok[OF assms(1)[unfolded s] u] show ?thesis using s' a1 by auto
  qed
qed

lemma reachable_ok: "reachable env s \<Longrightarrow> state_ok s"
proof (induction rule: reachable.induct)
  case (fresh h)
  show ?case by (simp add: state_ok_def tabs_ok_def)
next
  case (added s cls loc s')
  then show ?case using add_ok by blast
next
  case (viewed self h view self' h')
  then show ?case using CronTabs_all_ok(1) by blast
qed


subsection \<open>The example states\<close>

lemma spool_paths:
  "path_join ''/var/spool/cron/crontabs/'' ''alice'' = ''/var/spool/cron/crontabs/alice''"
  "path_join ''/var/spool/cron/crontabs/'' ''bob'' = ''/var/spool/cron/crontabs/bob''"
  "path_join ''/var/spool/cron/crontabs/'' ''carol'' = ''/var/spool/cron/crontabs/carol''"
  by (simp_all add: path_join_def)

lemma add_spool:
  "add demo_env UserSpoolCls ''/var/spool/cron/crontabs/'' (empty_CronTabs, empty_heap) = Inr spool_state"
  by (simp add: add_def construct_def UserSpool_def listdir_def generate_def get_owner_def
      spool_paths CronTab_def read_lines_def alloc_tab_def alloc_job_def tab_append_def
      demo_env_def empty_heap_def empty_CronTabs_def spool_state_def spool_heap_def append_tab_def
      backup_line_def fun_eq_iff)


lemma read_spool:
  "CronTabs_all demo_env (fst spool_state) (snd spool_state) = (3, spool_viewed)"
  by (simp add: CronTabs_all_def alloc_tab_def all_tab_def all_job_def tab_append_def set_user_def
      user_or_unknown_def spool_state_def spool_viewed_def spool_heap_def backup_line_def fun_eq_iff)

lemma add_crontab:
  "add demo_env SystemTabCls ''/etc/crontab'' spool_viewed = Inr system_state"
  by (simp add: add_def construct_def SystemTab_def
      CronTab_def read_lines_def alloc_tab_def alloc_job_def tab_append_def
      demo_env_def spool_viewed_def spool_heap_def system_state_def append_tab_def
      fun_eq_iff)

lemma read_system:
  "CronTabs_all demo_env (fst system_state) (snd system_state) = (5, system_viewed)"
  by (simp add: CronTabs_all_def alloc_tab_def all_tab_def all_job_def tab_append_def set_user_def
      user_or_unknown_def system_state_def system_viewed_def spool_viewed_def spool_heap_def
      backup_line_def daily_line_def fun_eq_iff)

lemma daily_paths:
  "path_join ''/etc/cron.daily'' ''0anacron'' = ''/etc/cron.daily/0anacron''"
  "path_join ''/etc/cron.daily'' ''.bak'' = ''/etc/cron.daily/.bak''"
  "path_join ''/etc/cron.daily'' ''run.sh'' = ''/etc/cron.daily/run.sh''"
  "path_join ''/etc/cron.daily'' ''notes'' = ''/etc/cron.daily/notes''"
  "last_segment ''/etc/cron.daily'' = ''daily''"
  by (simp_all add: path_join_def last_segment_def)

lemma add_daily:
  "add demo_env AnaCronTabCls ''/etc/cron.daily'' system_viewed = Inr absorbed_state"
  by (simp add: add_def construct_def AnaCronTab_def AnaCronTab_add_def CronTabs_all_def
      find_command_def new_def set_comment_def setall_def delete_def daily_paths
      alloc_tab_def alloc_job_def tab_append_def every_minute_def
      demo_env_def system_viewed_def system_state_def spool_viewed_def spool_heap_def
      absorbed_state_def run_sh_job_def append_tab_def backup_line_def daily_line_def
      fun_eq_iff)

lemma read_absorbed:
  "fst (CronTabs_all demo_env (fst absorbed_state) (snd absorbed_state)) = 7"
  "crons (tab_at (snd (snd (CronTabs_all demo_env (fst absorbed_state) (snd absorbed_state)))) 7) = [0, 2]"
  by (simp_all add: CronTabs_all_def alloc_tab_def all_tab_def all_job_def tab_append_def set_user_def
      user_or_unknown_def absorbed_state_def system_viewed_def system_state_def spool_viewed_def spool_heap_def
      backup_line_def daily_line_def run_sh_job_def)

subsection \<open>The claim about the spool entries\<close>







subsection \<open>The claims about the merged view\<close>

lemma rebuilt_job:
  assumes ok: "state_ok (a, h)" and none: "cached_all a = None"
    and r: "CronTabs_all env a h = (v, a', h')"
    and t: "t \<in> set (items a)" and j: "j \<in> set (crons (tab_at h t))"
  shows "job_at h' j = default_user (user_or_unknown env (tuser (tab_at h t))) (job_at h j)"
proof -
  have tk: "tabs_ok h (items a)" using ok by (simp add: state_ok_def)
  from CronTabs_all_ok(6)[OF ok r none]
  have f: "job_at h' j =
             (case find (\<lambda>t. j \<in> set (crons (tab_at h t))) (items a) of
                None \<Rightarrow> job_at h j
              | Some t \<Rightarrow> default_user (user_or_unknown env (tuser (tab_at h t))) (job_at h j))"
    by simp
  from t j obtain t' where t': "find (\<lambda>t. j \<in> set (crons (tab_at h t))) (items a) = Some t'"
    by (cases "find (\<lambda>t. j \<in> set (crons (tab_at h t))) (items a)") (auto simp add: find_None_iff)
  then have "t' \<in> set (items a)" "j \<in> set (crons (tab_at h t'))"
    by (auto simp add: find_Some_iff)
  then have "cron (job_at h j) = t'" "cron (job_at h j) = t"
    using tk t j unfolding tabs_ok_def by blast+
  then have "t' = t" by simp
  then show ?thesis using f t' by simp
qed

lemma reachable_spool: "reachable demo_env spool_state"
  using reachable.added[OF reachable.fresh add_spool[unfolded empty_CronTabs_def]] .

lemma reachable_spool_viewed: "reachable demo_env spool_viewed"
  using reachable.viewed[of demo_env "fst spool_state" "snd spool_state" 3
      "fst spool_viewed" "snd spool_viewed"] reachable_spool read_spool
  by simp

lemma reachable_system: "reachable demo_env system_state"
  using reachable.added[OF reachable_spool_viewed add_crontab] .

lemma reachable_system_viewed: "reachable demo_env system_viewed"
  using reachable.viewed[of demo_env "fst system_state" "snd system_state" 5
      "fst system_viewed" "snd system_viewed"] reachable_system read_system
  by simp

text \<open>
  C2.  In every state the aggregator reaches, every job of the tab that
  \<open>CronTabs.all\<close> returns has a user.  When the view is rebuilt, a job of a
  tab held is \<open>default_user u\<close> of what it was, where \<open>u\<close> is
  \<open>tab.user or 'unknown'\<close> of its tab: a job that had no user gets that
  user, which is \<open>unknown\<close> for a tab with no user and the name for a tab
  with a user name.
\<close>

theorem all_users_known:
  assumes "reachable env (a, h)" and "CronTabs_all env a h = (v, a', h')"
  shows "(\<forall>j\<in>set (crons (tab_at h' v)). user (job_at h' j) \<noteq> None)
       \<and> (cached_all a = None \<longrightarrow>
            (\<forall>t\<in>set (items a). \<forall>j\<in>set (crons (tab_at h t)).
               job_at h' j = default_user (user_or_unknown env (tuser (tab_at h t))) (job_at h j)))
       \<and> user_or_unknown env UserNone = ''unknown''
       \<and> user_or_unknown env UserFalse = ''unknown''
       \<and> (\<forall>n. n \<noteq> [] \<longrightarrow> user_or_unknown env (UserName n) = n)"
proof -
  have ok: "state_ok (a, h)" using assms(1) by (rule reachable_ok)
  have "\<forall>j\<in>set (crons (tab_at h' v)). user (job_at h' j) \<noteq> None"
    using CronTabs_all_ok(4)[OF ok assms(2)] .
  moreover have "cached_all a = None \<longrightarrow>
            (\<forall>t\<in>set (items a). \<forall>j\<in>set (crons (tab_at h t)).
               job_at h' j = default_user (user_or_unknown env (tuser (tab_at h t))) (job_at h j))"
    using rebuilt_job[OF ok _ assms(2)] by blast
  ultimately show ?thesis by (simp add: user_or_unknown_def)
qed

theorem all_users_known_witness:
  "reachable demo_env (fst system_state, snd system_state)
   \<and> CronTabs_all demo_env (fst system_state) (snd system_state)
       = (5, fst system_viewed, snd system_viewed)
   \<and> crons (tab_at (snd system_viewed) 5) = [0, 1]
   \<and> user (job_at (snd system_viewed) 0) \<noteq> None
   \<and> user (job_at (snd system_viewed) 1) \<noteq> None
   \<and> cached_all (fst system_state) = None
   \<and> tab_at (snd system_state) 4 = \<lparr>tuser = UserFalse, tabfile = Some ''/etc/crontab'', crons = [1]\<rparr>
   \<and> job_at (snd system_viewed) 1
       = default_user (user_or_unknown demo_env UserFalse) (job_at (snd system_state) 1)"
proof -
  have re: "reachable demo_env (fst system_state, snd system_state)"
    using reachable_system by simp
  have r: "CronTabs_all demo_env (fst system_state) (snd system_state)
       = (5, fst system_viewed, snd system_viewed)"
    using read_system by simp
  have c: "crons (tab_at (snd system_viewed) 5) = [0, 1]"
    by (simp add: system_viewed_def)
  have n: "cached_all (fst system_state) = None" "(4::nat) \<in> set (items (fst system_state))"
    by (simp_all add: system_state_def)
  have t: "tab_at (snd system_state) 4
      = \<lparr>tuser = UserFalse, tabfile = Some ''/etc/crontab'', crons = [1]\<rparr>"
    by (simp add: system_state_def)
  note th = all_users_known[OF re r]
  from th c have u: "user (job_at (snd system_viewed) 0) \<noteq> None"
    "user (job_at (snd system_viewed) 1) \<noteq> None" by simp_all
  from th n t have "job_at (snd system_viewed) 1
       = default_user (user_or_unknown demo_env UserFalse) (job_at (snd system_state) 1)"
    by simp
  with re r c u n(1) t show ?thesis by blast
qed

text \<open>
  C10.  Reading \<open>all\<close> changes the tabs held.  The view lists the very job
  addresses of the tabs held (references, not copies).  A job of a tab held
  that has no user when \<open>all\<close> is read is, after the read, still in its tab
  and also in the view, and its record has changed: its user is now
  \<open>tab.user or 'unknown'\<close> of its tab.  A further read returns the same view
  and changes nothing, so the assignment stays.
\<close>

theorem all_mutates_owned_jobs:
  assumes "reachable env (a, h)" and "CronTabs_all env a h = (v, a', h')"
    and "t \<in> set (items a)" and "j \<in> set (crons (tab_at h t))" and "user (job_at h j) = None"
  shows "crons (tab_at h' v) = concat (map (\<lambda>t. crons (tab_at h' t)) (items a))
       \<and> crons (tab_at h' t) = crons (tab_at h t)
       \<and> j \<in> set (crons (tab_at h' v)) \<and> j \<in> set (crons (tab_at h' t))
       \<and> job_at h' j = (job_at h j)\<lparr>user := Some (user_or_unknown env (tuser (tab_at h t)))\<rparr>
       \<and> job_at h' j \<noteq> job_at h j
       \<and> CronTabs_all env a' h' = (v, a', h')"
proof -
  have ok: "state_ok (a, h)" using assms(1) by (rule reachable_ok)
  note o = CronTabs_all_ok[OF ok assms(2)]
  have inview: "j \<in> set (concat (map (\<lambda>t. crons (tab_at h t)) (items a)))"
    using assms(3,4) by auto
  have none: "cached_all a = None"
  proof (cases "cached_all a")
    case None
    then show ?thesis .
  next
    case (Some v0)
    with ok have "crons (tab_at h v0) = concat (map (\<lambda>t. crons (tab_at h t)) (items a))"
      and "\<forall>j\<in>set (crons (tab_at h v0)). user (job_at h j) \<noteq> None"
      by (simp_all add: state_ok_def)
    with inview assms(5) show ?thesis by auto
  qed
  have j': "job_at h' j = (job_at h j)\<lparr>user := Some (user_or_unknown env (tuser (tab_at h t)))\<rparr>"
    using rebuilt_job[OF ok none assms(2,3,4)] assms(5) by (simp add: default_user_def)
  have "crons (tab_at h' v) = concat (map (\<lambda>t. crons (tab_at h' t)) (items a))"
    using o(2,3) by (simp cong: map_cong)
  moreover have "crons (tab_at h' t) = crons (tab_at h t)" using o(3) assms(3) by simp
  moreover have "j \<in> set (crons (tab_at h' v))" using o(2) inview by simp
  moreover have "j \<in> set (crons (tab_at h' t))" using o(3) assms(3,4) by simp
  moreover have "job_at h' j \<noteq> job_at h j"
  proof
    assume "job_at h' j = job_at h j"
    then have "user (job_at h' j) = None" using assms(5) by simp
    then show False using j' by simp
  qed
  moreover have "CronTabs_all env a' h' = (v, a', h')"
    using CronTabs_all_frame(3)[OF assms(2)] by (rule CronTabs_all_cached)
  ultimately show ?thesis using j' by simp
qed

theorem all_mutates_owned_jobs_witness:
  "reachable demo_env (fst spool_state, snd spool_state)
   \<and> CronTabs_all demo_env (fst spool_state) (snd spool_state)
       = (3, fst spool_viewed, snd spool_viewed)
   \<and> (0::nat) \<in> set (items (fst spool_state))
   \<and> (0::nat) \<in> set (crons (tab_at (snd spool_state) 0))
   \<and> user (job_at (snd spool_state) 0) = None
   \<and> (0::nat) \<in> set (crons (tab_at (snd spool_viewed) 3))
   \<and> (0::nat) \<in> set (crons (tab_at (snd spool_viewed) 0))
   \<and> job_at (snd spool_viewed) 0 = backup_line\<lparr>user := Some ''alice''\<rparr>
   \<and> job_at (snd spool_viewed) 0 \<noteq> job_at (snd spool_state) 0"
proof -
  have re: "reachable demo_env (fst spool_state, snd spool_state)"
    using reachable_spool by simp
  have r: "CronTabs_all demo_env (fst spool_state) (snd spool_state)
       = (3, fst spool_viewed, snd spool_viewed)"
    using read_spool by simp
  have t: "(0::nat) \<in> set (items (fst spool_state))" by (simp add: spool_state_def)
  have t0: "tab_at (snd spool_state) 0 = \<lparr>tuser = UserName ''alice'', tabfile = None, crons = [0]\<rparr>"
    by (simp add: spool_state_def spool_heap_def)
  have j: "(0::nat) \<in> set (crons (tab_at (snd spool_state) 0))" by (simp add: t0)
  have j0: "job_at (snd spool_state) 0 = backup_line" by (simp add: spool_state_def spool_heap_def)
  have u: "user (job_at (snd spool_state) 0) = None" by (simp add: j0 backup_line_def)
  have n: "user_or_unknown demo_env (UserName ''alice'') = ''alice''"
    by (simp add: user_or_unknown_def)
  note th = all_mutates_owned_jobs[OF re r t j u]
  have a1: "(0::nat) \<in> set (crons (tab_at (snd spool_viewed) 3))" using th by blast
  have a2: "(0::nat) \<in> set (crons (tab_at (snd spool_viewed) 0))" using th by blast
  have a3: "job_at (snd spool_viewed) 0
      = (job_at (snd spool_state) 0)
          \<lparr>user := Some (user_or_unknown demo_env (tuser (tab_at (snd spool_state) 0)))\<rparr>"
    using th by blast
  have a4: "job_at (snd spool_viewed) 0 \<noteq> job_at (snd spool_state) 0" using th by blast
  have a5: "job_at (snd spool_viewed) 0 = backup_line\<lparr>user := Some ''alice''\<rparr>"
    unfolding a3 j0 t0 by (simp add: n)
  note a1 a2 a5 a4
  with re r t j u show ?thesis by blast
qed

lemma AnaCronTab_old_tabs:
  assumes ok: "state_ok (a, h)" and r: "AnaCronTab env loc (Some a) h = Inr (ts, bk, h')"
  shows "\<exists>a'. bk = Some a' \<and> items a' = items a
           \<and> (\<forall>t\<in>set (items a). set (crons (tab_at h' t)) \<subseteq> set (crons (tab_at h t)))"
proof (cases "items a \<noteq> [] \<and> os_isdir env loc")
  case False
  then have "AnaCronTab env loc (Some a) h = Inr ([], Some a, h)"
    using AnaCronTab_noop(2)[of a env loc h] by auto
  then show ?thesis using r by simp
next
  case True
  let ?h1 = "snd (alloc_tab UserFalse None h)"
  obtain v a1 h2 where all: "CronTabs_all env a ?h1 = (v, a1, h2)"
    by (cases "CronTabs_all env a ?h1") auto
  have lt: "\<forall>t\<in>set (items a). t < ntabs h" using ok by (simp add: state_ok_def tabs_ok_def)
  show ?thesis
  proof (cases "find_command v loc h2")
    case Nil
    note n = AnaCronTab_no_template[OF _ _ all Nil]
    from n(1) True r have e: "bk = Some a1" "h' = h2" by simp_all
    then show ?thesis using n(4,6) True lt by simp
  next
    case (Cons anajob others)
    from r True all Cons obtain names h3 where
      ls: "os_listdir env loc = Inr names"
      and l: "AnaCronTab_loop env loc (ntabs h) anajob names h2 = Inr h3"
      by (auto simp add: AnaCronTab_def alloc_tab_def split: sum.splits)
    have names: "[] \<notin> set names" using l by (rule AnaCronTab_loop_names)
    from AnaCronTab_template[OF ok _ _ ls names all Cons] True obtain h4 where
      t: "AnaCronTab env loc (Some a) h = Inr ([ntabs h], Some a1, h4)"
        "\<forall>t\<in>set (items a). crons (tab_at h4 t) = removeAll anajob (crons (tab_at h t))"
        "items a1 = items a"
      by blast
    from t(1) r have e: "bk = Some a1" "h' = h4" by simp_all
    then show ?thesis using t(2,3) by auto
  qed
qed

lemma add_result:
  assumes ok: "state_ok (a, h)" and r: "add env cls loc (a, h) = Inr (a2, h2)"
  shows "\<exists>ts. items a2 = items a @ ts \<and> (ts \<noteq> [] \<longrightarrow> cached_all a2 = None)
           \<and> (\<forall>t\<in>set (items a). set (crons (tab_at h2 t)) \<subseteq> set (crons (tab_at h t)))
           \<and> (cls \<noteq> AnaCronTabCls \<longrightarrow> (\<forall>t\<in>set (items a). tab_at h2 t = tab_at h t))"
proof -
  from r obtain ts a1 where
    c: "construct env cls loc a h = Inr (ts, a1, h2)" and a2: "a2 = fold append_tab ts a1"
    by (auto simp add: add_def split: sum.splits)
  have lt: "\<forall>t\<in>set (items a). t < ntabs h" using ok by (simp add: state_ok_def tabs_ok_def)
  have "items a1 = items a
      \<and> (\<forall>t\<in>set (items a). set (crons (tab_at h2 t)) \<subseteq> set (crons (tab_at h t)))
      \<and> (cls \<noteq> AnaCronTabCls \<longrightarrow> (\<forall>t\<in>set (items a). tab_at h2 t = tab_at h t))"
  proof (cases cls)
    case UserSpoolCls
    with c have u: "UserSpool env loc h = Inr (ts, h2)" and a1: "a1 = a"
      by (auto simp add: construct_def split: sum.splits)
    from UserSpool_extends(1)[OF u] lt a1 show ?thesis by (simp add: extends_def)
  next
    case SystemTabCls
    with c have u: "SystemTab env loc h = Inr (ts, h2)" and a1: "a1 = a"
      by (auto simp add: construct_def split: sum.splits)
    from SystemTab_extends(1)[OF u] lt a1 show ?thesis by (simp add: extends_def)
  next
    case AnaCronTabCls
    with c obtain bk where u: "AnaCronTab env loc (Some a) h = Inr (ts, bk, h2)"
      and a1: "a1 = (case bk of None \<Rightarrow> a | Some a' \<Rightarrow> a')"
      by (auto simp add: construct_def split: sum.splits)
    from AnaCronTab_old_tabs[OF ok u] a1 AnaCronTabCls show ?thesis by auto
  qed
  then show ?thesis using a2 by (auto simp add: fold_append_tab)
qed

lemma removeAll_concat: "removeAll x (concat xss) = concat (map (removeAll x) xss)"
  by (induction xss) simp_all

lemma add_AnaCronTab_cached:
  assumes ok: "state_ok (a, h)" and c: "cached_all a = Some v"
    and r: "add env AnaCronTabCls loc (a, h) = Inr (a2, h2)"
    and ne: "items a2 \<noteq> items a"
  shows "items a2 = items a @ [ntabs h]"
    and "find_command v loc h = [] \<Longrightarrow> \<forall>t\<in>set (items a). tab_at h2 t = tab_at h t"
    and "find_command v loc h = anajob # others \<Longrightarrow>
           anajob \<in> set (crons (tab_at h v))
           \<and> (\<forall>t\<in>set (items a). crons (tab_at h2 t) = removeAll anajob (crons (tab_at h t)))
           \<and> anajob \<notin> set (crons (tab_at h2 (ntabs h)))"
proof -
  let ?h1 = "snd (alloc_tab UserFalse None h)"
  from r obtain ts bk where
    u: "AnaCronTab env loc (Some a) h = Inr (ts, bk, h2)"
    and a2: "a2 = fold append_tab ts (case bk of None \<Rightarrow> a | Some a' \<Rightarrow> a')"
    by (auto simp add: add_def construct_def split: sum.splits)
  have tk: "tabs_ok h (items a)" using ok by (simp add: state_ok_def)
  have lt: "\<forall>t\<in>set (items a). t < ntabs h" using tk by (simp add: tabs_ok_def)
  have vlt: "v < ntabs h" using ok c by (simp add: state_ok_def)
  have all: "CronTabs_all env a ?h1 = (v, a, ?h1)" using c by (rule CronTabs_all_cached)
  have fc: "find_command v loc ?h1 = find_command v loc h"
    using vlt by (simp add: find_command_def alloc_tab_def)
  have go: "items a \<noteq> [] \<and> os_isdir env loc"
  proof (rule ccontr)
    assume "\<not> (items a \<noteq> [] \<and> os_isdir env loc)"
    then have "AnaCronTab env loc (Some a) h = Inr ([], Some a, h)"
      using AnaCronTab_noop(2)[of a env loc h] by auto
    then show False using u a2 ne by simp
  qed
  have "items a2 = items a @ [ntabs h]
      \<and> (find_command v loc h = [] \<longrightarrow> (\<forall>t\<in>set (items a). tab_at h2 t = tab_at h t))
      \<and> (find_command v loc h = anajob # others \<longrightarrow>
           anajob \<in> set (crons (tab_at h v))
           \<and> (\<forall>t\<in>set (items a). crons (tab_at h2 t) = removeAll anajob (crons (tab_at h t)))
           \<and> anajob \<notin> set (crons (tab_at h2 (ntabs h))))"
  proof (cases "find_command v loc h")
    case Nil
    then have n0: "find_command v loc ?h1 = []" using fc by simp
    note n = AnaCronTab_no_template[OF _ _ all n0]
    from n(1) go u have e: "ts = [ntabs h]" "bk = Some a" "h2 = ?h1" by simp_all
    have "items a2 = items a @ [ntabs h]" using a2 e by (simp add: append_tab_def)
    moreover have "\<forall>t\<in>set (items a). tab_at h2 t = tab_at h t" using lt e(3) by auto
    ultimately show ?thesis using Nil by simp
  next
    case (Cons j js)
    then have c1: "find_command v loc ?h1 = j # js" using fc by simp
    from u go all c1 obtain names h3 where
      ls: "os_listdir env loc = Inr names"
      and l: "AnaCronTab_loop env loc (ntabs h) j names ?h1 = Inr h3"
      by (auto simp add: AnaCronTab_def alloc_tab_def split: sum.splits)
    have names: "[] \<notin> set names" using l by (rule AnaCronTab_loop_names)
    from AnaCronTab_template[OF ok _ _ ls names all c1] go obtain h4 where
      t: "AnaCronTab env loc (Some a) h = Inr ([ntabs h], Some a, h4)"
        "\<forall>i\<in>set (crons (tab_at h4 (ntabs h))). njobs h \<le> i \<and> i < njobs h4"
        "\<exists>t\<in>set (items a). j \<in> set (crons (tab_at h t))"
        "\<forall>t\<in>set (items a). crons (tab_at h4 t) = removeAll j (crons (tab_at h t))"
      by blast
    from t(1) u have e: "ts = [ntabs h]" "bk = Some a" "h2 = h4" by simp_all
    have jlt: "j < njobs h" using t(3) tk by (auto simp add: tabs_ok_def)
    have jin: "j \<in> set (crons (tab_at h v))"
      using Cons find_command_subset[of v loc h] by auto
    have jnew: "j \<notin> set (crons (tab_at h2 (ntabs h)))" using t(2) jlt e(3) by auto
    have "items a2 = items a @ [ntabs h]" using a2 e by (simp add: append_tab_def)
    then show ?thesis using Cons jin jnew t(4) e(3) by auto
  qed
  then show "items a2 = items a @ [ntabs h]"
    and "find_command v loc h = [] \<Longrightarrow> \<forall>t\<in>set (items a). tab_at h2 t = tab_at h t"
    and "find_command v loc h = anajob # others \<Longrightarrow>
           anajob \<in> set (crons (tab_at h v))
           \<and> (\<forall>t\<in>set (items a). crons (tab_at h2 t) = removeAll anajob (crons (tab_at h t)))
           \<and> anajob \<notin> set (crons (tab_at h2 (ntabs h)))"
    by simp_all
qed

text \<open>
  C3, as amended.  Two reads in a row return the same view and leave the state
  as it is.  After an \<open>add\<close> that appends at least one tab the cache is
  \<open>None\<close>, the new tabs follow the tabs held before, and the next read
  lists the jobs the tabs hold after the \<open>add\<close>: tab by tab in insertion
  order, each tab's jobs in their own order.  An \<open>add\<close> of \<open>UserSpool\<close>
  or \<open>SystemTab\<close>, and one of \<open>AnaCronTab\<close> that finds no template job,
  leaves the tabs held before as they were, so the view is the previous view
  followed by the jobs of the new tabs.  An \<open>add\<close> of \<open>AnaCronTab\<close> that
  finds a template job, the first job of the previous view whose command
  contains the directory path, deletes it: each tab held before keeps its
  other jobs, in order, and the next view is the previous view without the
  template job, followed by the jobs of the new tab; the template job is not
  in it.  No \<open>add\<close> puts a job into a tab held before.
\<close>

theorem all_cache:
  assumes "reachable env (a, h)"
    and "CronTabs_all env a h = (v1, a1, h1)"
  shows "CronTabs_all env a1 h1 = (v1, a1, h1)
       \<and> (add env cls loc (a1, h1) = Inr (a2, h2) \<and> items a2 \<noteq> items a1
            \<and> CronTabs_all env a2 h2 = (v2, a3, h3) \<longrightarrow>
          cached_all a2 = None
          \<and> (\<exists>ts. ts \<noteq> [] \<and> items a2 = items a1 @ ts
                \<and> crons (tab_at h3 v2) =
                    concat (map (\<lambda>t. crons (tab_at h2 t)) (items a1))
                    @ concat (map (\<lambda>t. crons (tab_at h2 t)) ts)
                \<and> (cls \<noteq> AnaCronTabCls \<or> find_command v1 loc h1 = [] \<longrightarrow>
                     (\<forall>t\<in>set (items a1). tab_at h2 t = tab_at h1 t)
                     \<and> crons (tab_at h3 v2) =
                         crons (tab_at h1 v1) @ concat (map (\<lambda>t. crons (tab_at h2 t)) ts))
                \<and> (\<forall>anajob others.
                     cls = AnaCronTabCls \<and> find_command v1 loc h1 = anajob # others \<longrightarrow>
                       anajob \<in> set (crons (tab_at h1 v1))
                       \<and> (\<forall>t\<in>set (items a1).
                            crons (tab_at h2 t) = removeAll anajob (crons (tab_at h1 t)))
                       \<and> crons (tab_at h3 v2) =
                           removeAll anajob (crons (tab_at h1 v1))
                           @ concat (map (\<lambda>t. crons (tab_at h2 t)) ts)
                       \<and> anajob \<notin> set (crons (tab_at h3 v2))))
          \<and> (\<forall>t\<in>set (items a1). set (crons (tab_at h2 t)) \<subseteq> set (crons (tab_at h1 t))))"
proof -
  have ok: "state_ok (a, h)" using assms(1) by (rule reachable_ok)
  note o1 = CronTabs_all_ok[OF ok assms(2)]
  note f1 = CronTabs_all_frame[OF assms(2)]
  have twice: "CronTabs_all env a1 h1 = (v1, a1, h1)"
    using f1(3) by (rule CronTabs_all_cached)
  have view1: "crons (tab_at h1 v1) = concat (map (\<lambda>t. crons (tab_at h1 t)) (items a1))"
    using o1(2,3) f1(1) by (simp cong: map_cong)
  have after: "cached_all a2 = None
          \<and> (\<exists>ts. ts \<noteq> [] \<and> items a2 = items a1 @ ts
                \<and> crons (tab_at h3 v2) =
                    concat (map (\<lambda>t. crons (tab_at h2 t)) (items a1))
                    @ concat (map (\<lambda>t. crons (tab_at h2 t)) ts)
                \<and> (cls \<noteq> AnaCronTabCls \<or> find_command v1 loc h1 = [] \<longrightarrow>
                     (\<forall>t\<in>set (items a1). tab_at h2 t = tab_at h1 t)
                     \<and> crons (tab_at h3 v2) =
                         crons (tab_at h1 v1) @ concat (map (\<lambda>t. crons (tab_at h2 t)) ts))
                \<and> (\<forall>anajob others.
                     cls = AnaCronTabCls \<and> find_command v1 loc h1 = anajob # others \<longrightarrow>
                       anajob \<in> set (crons (tab_at h1 v1))
                       \<and> (\<forall>t\<in>set (items a1).
                            crons (tab_at h2 t) = removeAll anajob (crons (tab_at h1 t)))
                       \<and> crons (tab_at h3 v2) =
                           removeAll anajob (crons (tab_at h1 v1))
                           @ concat (map (\<lambda>t. crons (tab_at h2 t)) ts)
                       \<and> anajob \<notin> set (crons (tab_at h3 v2))))
          \<and> (\<forall>t\<in>set (items a1). set (crons (tab_at h2 t)) \<subseteq> set (crons (tab_at h1 t)))"
    if ad: "add env cls loc (a1, h1) = Inr (a2, h2)" and dif: "items a2 \<noteq> items a1"
      and rd: "CronTabs_all env a2 h2 = (v2, a3, h3)"
  proof -
    have ok2: "state_ok (a2, h2)" using o1(1) ad by (rule add_ok)
    note o2 = CronTabs_all_ok[OF ok2 rd]
    from add_result[OF o1(1) ad] obtain ts where
      ts: "items a2 = items a1 @ ts" "ts \<noteq> [] \<longrightarrow> cached_all a2 = None"
        "\<forall>t\<in>set (items a1). set (crons (tab_at h2 t)) \<subseteq> set (crons (tab_at h1 t))"
        "cls \<noteq> AnaCronTabCls \<longrightarrow> (\<forall>t\<in>set (items a1). tab_at h2 t = tab_at h1 t)"
      by blast
    have ne: "ts \<noteq> []" using ts(1) dif by auto
    have view2: "crons (tab_at h3 v2) =
        concat (map (\<lambda>t. crons (tab_at h2 t)) (items a1))
        @ concat (map (\<lambda>t. crons (tab_at h2 t)) ts)"
      using o2(2) ts(1) by simp
    have same: "(\<forall>t\<in>set (items a1). tab_at h2 t = tab_at h1 t)
             \<and> crons (tab_at h3 v2) =
                 crons (tab_at h1 v1) @ concat (map (\<lambda>t. crons (tab_at h2 t)) ts)"
      if k: "cls \<noteq> AnaCronTabCls \<or> find_command v1 loc h1 = []"
    proof -
      have s: "\<forall>t\<in>set (items a1). tab_at h2 t = tab_at h1 t"
      proof (cases "cls = AnaCronTabCls")
        case False
        then show ?thesis using ts(4) by simp
      next
        case True
        then have "find_command v1 loc h1 = []" using k by simp
        from add_AnaCronTab_cached(2)[OF o1(1) f1(3) ad[unfolded True] dif this]
        show ?thesis .
      qed
      have "map (\<lambda>t. crons (tab_at h2 t)) (items a1) = map (\<lambda>t. crons (tab_at h1 t)) (items a1)"
        by (rule map_cong[OF refl]) (simp add: s)
      then have "concat (map (\<lambda>t. crons (tab_at h2 t)) (items a1)) = crons (tab_at h1 v1)"
        unfolding view1 by (rule arg_cong)
      then have "crons (tab_at h3 v2)
          = crons (tab_at h1 v1) @ concat (map (\<lambda>t. crons (tab_at h2 t)) ts)"
        unfolding view2 by (rule arg_cong)
      with s show ?thesis by simp
    qed
    have template: "anajob \<in> set (crons (tab_at h1 v1))
           \<and> (\<forall>t\<in>set (items a1). crons (tab_at h2 t) = removeAll anajob (crons (tab_at h1 t)))
           \<and> crons (tab_at h3 v2) =
               removeAll anajob (crons (tab_at h1 v1))
               @ concat (map (\<lambda>t. crons (tab_at h2 t)) ts)
           \<and> anajob \<notin> set (crons (tab_at h3 v2))"
      if k: "cls = AnaCronTabCls \<and> find_command v1 loc h1 = anajob # others"
      for anajob others
    proof -
      from k have cl: "cls = AnaCronTabCls" and fc: "find_command v1 loc h1 = anajob # others"
        by simp_all
      note i = add_AnaCronTab_cached(1)[OF o1(1) f1(3) ad[unfolded cl] dif]
      from add_AnaCronTab_cached(3)[OF o1(1) f1(3) ad[unfolded cl] dif fc]
      have t: "anajob \<in> set (crons (tab_at h1 v1))"
        "\<forall>t\<in>set (items a1). crons (tab_at h2 t) = removeAll anajob (crons (tab_at h1 t))"
        "anajob \<notin> set (crons (tab_at h2 (ntabs h1)))"
        by simp_all
      have tse: "ts = [ntabs h1]" using i ts(1) by simp
      have "map (\<lambda>t. crons (tab_at h2 t)) (items a1)
          = map (removeAll anajob) (map (\<lambda>t. crons (tab_at h1 t)) (items a1))"
        unfolding map_map by (rule map_cong[OF refl]) (simp add: t(2))
      then have "concat (map (\<lambda>t. crons (tab_at h2 t)) (items a1))
          = removeAll anajob (crons (tab_at h1 v1))"
        unfolding view1 removeAll_concat by (rule arg_cong)
      then have v: "crons (tab_at h3 v2)
          = removeAll anajob (crons (tab_at h1 v1))
            @ concat (map (\<lambda>t. crons (tab_at h2 t)) ts)"
        unfolding view2 by (rule arg_cong)
      have "anajob \<notin> set (crons (tab_at h3 v2))"
        unfolding v using t(3) tse by simp
      with t(1,2) v show ?thesis by simp
    qed
    have "cached_all a2 = None" using ts(2) ne by simp
    with ne ts(1,3) view2 same template show ?thesis by blast
  qed
  from twice after show ?thesis by blast
qed


theorem all_cache_witness:
  "reachable demo_env (fst spool_state, snd spool_state)
   \<and> CronTabs_all demo_env (fst spool_state) (snd spool_state)
       = (3, fst spool_viewed, snd spool_viewed)
   \<and> CronTabs_all demo_env (fst spool_viewed) (snd spool_viewed)
       = (3, fst spool_viewed, snd spool_viewed)
   \<and> add demo_env SystemTabCls ''/etc/crontab'' (fst spool_viewed, snd spool_viewed)
       = Inr (fst system_state, snd system_state)
   \<and> items (fst system_state) \<noteq> items (fst spool_viewed)
   \<and> CronTabs_all demo_env (fst system_state) (snd system_state)
       = (5, fst system_viewed, snd system_viewed)
   \<and> cached_all (fst system_state) = None
   \<and> crons (tab_at (snd system_viewed) 5) = crons (tab_at (snd spool_viewed) 3) @ [1]
   \<and> reachable demo_env (fst system_state, snd system_state)
   \<and> CronTabs_all demo_env (fst system_viewed) (snd system_viewed)
       = (5, fst system_viewed, snd system_viewed)
   \<and> add demo_env AnaCronTabCls ''/etc/cron.daily'' (fst system_viewed, snd system_viewed)
       = Inr (fst absorbed_state, snd absorbed_state)
   \<and> items (fst absorbed_state) \<noteq> items (fst system_viewed)
   \<and> find_command 5 ''/etc/cron.daily'' (snd system_viewed) = [1]
   \<and> cached_all (fst absorbed_state) = None
   \<and> crons (tab_at (snd absorbed_state) 4) = removeAll 1 (crons (tab_at (snd system_viewed) 4))
   \<and> crons (tab_at (snd (snd (CronTabs_all demo_env (fst absorbed_state) (snd absorbed_state)))) 7)
       = removeAll 1 (crons (tab_at (snd system_viewed) 5)) @ [2]
   \<and> (1::nat) \<in> set (crons (tab_at (snd system_viewed) 5))
   \<and> (1::nat) \<notin> set (crons (tab_at
         (snd (snd (CronTabs_all demo_env (fst absorbed_state) (snd absorbed_state)))) 7))"
proof -
  have re: "reachable demo_env (fst spool_state, snd spool_state)"
    using reachable_spool by simp
  have r1: "CronTabs_all demo_env (fst spool_state) (snd spool_state)
       = (3, fst spool_viewed, snd spool_viewed)"
    using read_spool by simp
  have ad: "add demo_env SystemTabCls ''/etc/crontab'' (fst spool_viewed, snd spool_viewed)
       = Inr (fst system_state, snd system_state)"
    using add_crontab by simp
  have ne: "items (fst system_state) \<noteq> items (fst spool_viewed)"
    by (simp add: system_state_def spool_viewed_def)
  have r2: "CronTabs_all demo_env (fst system_state) (snd system_state)
       = (5, fst system_viewed, snd system_viewed)"
    using read_system by simp
  note th = all_cache[OF re r1, where cls = SystemTabCls and loc = "''/etc/crontab''"
      and ?a2.0 = "fst system_state" and ?h2.0 = "snd system_state" and ?v2.0 = 5
      and ?a3.0 = "fst system_viewed" and ?h3.0 = "snd system_viewed"]
  have c: "SystemTabCls \<noteq> AnaCronTabCls" by simp
  from th have tw1: "CronTabs_all demo_env (fst spool_viewed) (snd spool_viewed)
       = (3, fst spool_viewed, snd spool_viewed)"
    by (rule conjunct1)
  from th ad ne r2 have n1: "cached_all (fst system_state) = None" by blast
  from th ad ne r2 c obtain ts where
    ts: "items (fst system_state) = items (fst spool_viewed) @ ts"
      "crons (tab_at (snd system_viewed) 5)
         = crons (tab_at (snd spool_viewed) 3)
           @ concat (map (\<lambda>t. crons (tab_at (snd system_state) t)) ts)"
    by blast
  from ts(1) have "ts = [4]" by (simp add: system_state_def spool_viewed_def)
  then have "concat (map (\<lambda>t. crons (tab_at (snd system_state) t)) ts) = [1]"
    by (simp add: system_state_def)
  with ts(2) have v1: "crons (tab_at (snd system_viewed) 5) = crons (tab_at (snd spool_viewed) 3) @ [1]"
    by simp
  let ?X = "CronTabs_all demo_env (fst absorbed_state) (snd absorbed_state)"
  have re2: "reachable demo_env (fst system_state, snd system_state)"
    using reachable_system by simp
  have ad2: "add demo_env AnaCronTabCls ''/etc/cron.daily'' (fst system_viewed, snd system_viewed)
       = Inr (fst absorbed_state, snd absorbed_state)"
    using add_daily by simp
  have ne2: "items (fst absorbed_state) \<noteq> items (fst system_viewed)"
    by (simp add: absorbed_state_def system_viewed_def)
  have r3: "?X = (7, fst (snd ?X), snd (snd ?X))"
    using read_absorbed(1) by (metis prod.collapse)
  have fc: "find_command 5 ''/etc/cron.daily'' (snd system_viewed) = [1]"
    by (simp add: find_command_def system_viewed_def system_state_def spool_viewed_def
        spool_heap_def backup_line_def daily_line_def)
  note th2 = all_cache[OF re2 r2, where cls = AnaCronTabCls and loc = "''/etc/cron.daily''"
      and ?a2.0 = "fst absorbed_state" and ?h2.0 = "snd absorbed_state" and ?v2.0 = 7
      and ?a3.0 = "fst (snd ?X)" and ?h3.0 = "snd (snd ?X)"]
  from th2 have tw2: "CronTabs_all demo_env (fst system_viewed) (snd system_viewed)
       = (5, fst system_viewed, snd system_viewed)"
    by (rule conjunct1)
  from th2 ad2 ne2 r3 have n2: "cached_all (fst absorbed_state) = None" by blast
  from th2 ad2 ne2 r3 obtain us where
    us: "items (fst absorbed_state) = items (fst system_viewed) @ us"
      "\<forall>anajob others.
         AnaCronTabCls = AnaCronTabCls
         \<and> find_command 5 ''/etc/cron.daily'' (snd system_viewed) = anajob # others \<longrightarrow>
           anajob \<in> set (crons (tab_at (snd system_viewed) 5))
           \<and> (\<forall>t\<in>set (items (fst system_viewed)).
                crons (tab_at (snd absorbed_state) t)
                  = removeAll anajob (crons (tab_at (snd system_viewed) t)))
           \<and> crons (tab_at (snd (snd ?X)) 7) =
               removeAll anajob (crons (tab_at (snd system_viewed) 5))
               @ concat (map (\<lambda>t. crons (tab_at (snd absorbed_state) t)) us)
           \<and> anajob \<notin> set (crons (tab_at (snd (snd ?X)) 7))"
    by blast
  from us(1) have u6: "us = [6]" by (simp add: absorbed_state_def system_viewed_def)
  have new: "concat (map (\<lambda>t. crons (tab_at (snd absorbed_state) t)) us) = [2]"
    by (simp add: u6 absorbed_state_def)
  have i4: "4 \<in> set (items (fst system_viewed))" by (simp add: system_viewed_def)
  from us(2) fc have t:
    "(1::nat) \<in> set (crons (tab_at (snd system_viewed) 5))"
    "\<forall>t\<in>set (items (fst system_viewed)).
        crons (tab_at (snd absorbed_state) t) = removeAll 1 (crons (tab_at (snd system_viewed) t))"
    "crons (tab_at (snd (snd ?X)) 7) =
       removeAll 1 (crons (tab_at (snd system_viewed) 5))
       @ concat (map (\<lambda>t. crons (tab_at (snd absorbed_state) t)) us)"
    "(1::nat) \<notin> set (crons (tab_at (snd (snd ?X)) 7))"
    by blast+
  have t4: "crons (tab_at (snd absorbed_state) 4) = removeAll 1 (crons (tab_at (snd system_viewed) 4))"
    using t(2) i4 by blast
  have v2: "crons (tab_at (snd (snd ?X)) 7) = removeAll 1 (crons (tab_at (snd system_viewed) 5)) @ [2]"
    using t(3) unfolding new .
  from re r1 tw1 ad ne r2 n1 v1 re2 tw2 ad2 ne2 fc n2 t4 v2 t(1) t(4)
  show ?thesis by (intro conjI)
qed

text \<open>
  The claim as stated fails for \<open>AnaCronTab\<close>: on the example machine the
  view holds jobs 0 and 1; the \<open>add\<close> of \<open>/etc/cron.daily\<close> appends a tab
  and deletes the template job 1; the next view holds jobs 0 and 2, not 1.
\<close>

theorem all_after_absorbing:
  "CronTabs_all demo_env (fst system_state) (snd system_state) = (5, system_viewed)
   \<and> crons (tab_at (snd system_viewed) 5) = [0, 1]
   \<and> add demo_env AnaCronTabCls ''/etc/cron.daily'' system_viewed = Inr absorbed_state
   \<and> items (fst absorbed_state) = items (fst system_viewed) @ [6]
   \<and> fst (CronTabs_all demo_env (fst absorbed_state) (snd absorbed_state)) = 7
   \<and> crons (tab_at (snd (snd (CronTabs_all demo_env (fst absorbed_state) (snd absorbed_state)))) 7)
       = [0, 2]
   \<and> (1::nat) \<in> set (crons (tab_at (snd system_viewed) 5))
   \<and> (1::nat) \<notin> set (crons (tab_at
         (snd (snd (CronTabs_all demo_env (fst absorbed_state) (snd absorbed_state)))) 7))"
proof -
  have c: "crons (tab_at (snd system_viewed) 5) = [0, 1]" by (simp add: system_viewed_def)
  have i: "items (fst absorbed_state) = items (fst system_viewed) @ [6]"
    by (simp add: absorbed_state_def system_viewed_def)
  show ?thesis using read_system add_daily read_absorbed c i by simp
qed

subsection \<open>The claims about AnaCronTab\<close>

text \<open>
  C1.  Let the aggregator be in a state it can reach, the directory exist and
  list as \<open>names\<close>, and the merged view, read after the seeded tab is
  allocated, hold a job whose command contains the directory path; the first
  such job is the template \<open>anajob\<close>.  Then \<open>AnaCronTab\<close> returns the
  seeded system tab alone, and that tab holds exactly one new job for each
  name that is not \<open>0anacron\<close>, does not start with a dot and is executable,
  in listing order and for no other name: its command is the full path, its
  user the template's, its comment \<open>Anacron\<close> and the last dot-separated
  segment of the directory path, its schedule the template's
  (\<open>absorbed_job\<close>).  The template lived in a tab held; afterwards every tab
  held has its jobs as before but for the template, which is in none.
\<close>

theorem AnaCronTab_absorbs:
  assumes "reachable env (a, h)" and "os_isdir env loc"
    and "os_listdir env loc = Inr names" and "[] \<notin> set names"
    and "CronTabs_all env a (snd (alloc_tab UserFalse None h)) = (v, a1, h2)"
    and "find_command v loc h2 = anajob # others"
  shows "\<exists>h4. AnaCronTab env loc (Some a) h = Inr ([ntabs h], Some a1, h4)
           \<and> binding h4 (ntabs h) = (UserFalse, None)
           \<and> map (job_at h4) (crons (tab_at h4 (ntabs h)))
               = map (absorbed_job loc (ntabs h) (job_at h2 anajob)) (filter (absorbed env loc) names)
           \<and> distinct (crons (tab_at h4 (ntabs h)))
           \<and> (\<forall>j\<in>set (crons (tab_at h4 (ntabs h))). njobs h \<le> j)
           \<and> job_at h4 anajob = job_at h2 anajob
           \<and> (\<exists>t\<in>set (items a). anajob \<in> set (crons (tab_at h t)))
           \<and> (\<forall>t\<in>set (items a). crons (tab_at h4 t) = removeAll anajob (crons (tab_at h t)))"
proof -
  have ok: "state_ok (a, h)" using assms(1) by (rule reachable_ok)
  have ok1: "state_ok (a, snd (alloc_tab UserFalse None h))"
    using ok extends_alloc_tab by (rule state_ok_extends)
  have "anajob \<in> set (crons (tab_at h2 v))"
    using assms(6) find_command_subset[of v loc h2] by auto
  then have "crons (tab_at h2 v) \<noteq> []" by auto
  then have ne: "items a \<noteq> []" using CronTabs_all_ok(2)[OF ok1 assms(5)] by auto
  from AnaCronTab_template[OF ok ne assms(2-6)] show ?thesis by blast
qed


theorem AnaCronTab_absorbs_witness:
  "reachable demo_env (fst system_viewed, snd system_viewed)
   \<and> os_isdir demo_env ''/etc/cron.daily''
   \<and> os_listdir demo_env ''/etc/cron.daily'' = Inr [''0anacron'', ''.bak'', ''run.sh'', ''notes'']
   \<and> [] \<notin> set [''0anacron'', ''.bak'', ''run.sh'', ''notes'']
   \<and> CronTabs_all demo_env (fst system_viewed) (snd (alloc_tab UserFalse None (snd system_viewed)))
       = (5, fst system_viewed, snd (alloc_tab UserFalse None (snd system_viewed)))
   \<and> find_command 5 ''/etc/cron.daily'' (snd (alloc_tab UserFalse None (snd system_viewed))) = [1]
   \<and> filter (absorbed demo_env ''/etc/cron.daily'') [''0anacron'', ''.bak'', ''run.sh'', ''notes'']
       = [''run.sh'']
   \<and> (\<exists>h4. AnaCronTab demo_env ''/etc/cron.daily'' (Some (fst system_viewed)) (snd system_viewed)
               = Inr ([6], Some (fst system_viewed), h4)
         \<and> binding h4 6 = (UserFalse, None)
         \<and> map (job_at h4) (crons (tab_at h4 6)) = [run_sh_job]
         \<and> crons (tab_at h4 0) = [0]
         \<and> crons (tab_at h4 4) = [])"
proof -
  let ?h = "snd system_viewed"
  let ?h1 = "snd (alloc_tab UserFalse None ?h)"
  let ?names = "[''0anacron'', ''.bak'', ''run.sh'', ''notes'']"
  have re: "reachable demo_env (fst system_viewed, ?h)" using reachable_system_viewed by simp
  have d: "os_isdir demo_env ''/etc/cron.daily''"
    and l: "os_listdir demo_env ''/etc/cron.daily'' = Inr ?names"
    by (simp_all add: demo_env_def)
  have n: "[] \<notin> set ?names" by simp
  have c: "cached_all (fst system_viewed) = Some 5" by (simp add: system_viewed_def)
  have r: "CronTabs_all demo_env (fst system_viewed) ?h1 = (5, fst system_viewed, ?h1)"
    using c by (rule CronTabs_all_cached)
  have nt: "ntabs ?h = 6" and nj: "njobs ?h = 2" and it: "items (fst system_viewed) = [0, 4]"
    by (simp_all add: system_viewed_def system_state_def)
  have t0: "crons (tab_at ?h 0) = [0]" and t4: "crons (tab_at ?h 4) = [1]"
    by (simp_all add: system_viewed_def system_state_def spool_viewed_def spool_heap_def)
  have j1: "job_at ?h1 1 = daily_line\<lparr>cron := 4\<rparr>"
    by (simp add: system_viewed_def system_state_def)
  have f: "find_command 5 ''/etc/cron.daily'' ?h1 = [1]"
    by (simp add: find_command_def system_viewed_def system_state_def spool_viewed_def
        spool_heap_def backup_line_def daily_line_def)
  have ab: "filter (absorbed demo_env ''/etc/cron.daily'') ?names = [''run.sh'']"
    by (simp add: absorbed_def daily_paths demo_env_def)
  have aj: "absorbed_job ''/etc/cron.daily'' 6 (daily_line\<lparr>cron := 4\<rparr>) ''run.sh'' = run_sh_job"
    by (simp add: absorbed_job_def daily_paths run_sh_job_def daily_line_def)
  from AnaCronTab_absorbs[OF re d l n r f] obtain h4 where
    h4: "AnaCronTab demo_env ''/etc/cron.daily'' (Some (fst system_viewed)) ?h
           = Inr ([ntabs ?h], Some (fst system_viewed), h4)"
      "binding h4 (ntabs ?h) = (UserFalse, None)"
      "map (job_at h4) (crons (tab_at h4 (ntabs ?h)))
         = map (absorbed_job ''/etc/cron.daily'' (ntabs ?h) (job_at ?h1 1))
             (filter (absorbed demo_env ''/etc/cron.daily'') ?names)"
      "\<forall>t\<in>set (items (fst system_viewed)). crons (tab_at h4 t) = removeAll 1 (crons (tab_at ?h t))"
    by blast
  have "AnaCronTab demo_env ''/etc/cron.daily'' (Some (fst system_viewed)) ?h
           = Inr ([6], Some (fst system_viewed), h4)"
    using h4(1) nt by simp
  moreover have "binding h4 6 = (UserFalse, None)" using h4(2) nt by simp
  moreover have "map (job_at h4) (crons (tab_at h4 6)) = [run_sh_job]"
    using h4(3) unfolding nt ab j1 by (simp add: aj)
  moreover have "crons (tab_at h4 0) = [0]" using h4(4) it t0 by simp
  moreover have "crons (tab_at h4 4) = []" using h4(4) it t4 by simp
  ultimately have "AnaCronTab demo_env ''/etc/cron.daily'' (Some (fst system_viewed)) ?h
               = Inr ([6], Some (fst system_viewed), h4)
         \<and> binding h4 6 = (UserFalse, None)
         \<and> map (job_at h4) (crons (tab_at h4 6)) = [run_sh_job]
         \<and> crons (tab_at h4 0) = [0]
         \<and> crons (tab_at h4 4) = []"
    by (intro conjI)
  then have "\<exists>h4. AnaCronTab demo_env ''/etc/cron.daily'' (Some (fst system_viewed)) ?h
               = Inr ([6], Some (fst system_viewed), h4)
         \<and> binding h4 6 = (UserFalse, None)
         \<and> map (job_at h4) (crons (tab_at h4 6)) = [run_sh_job]
         \<and> crons (tab_at h4 0) = [0]
         \<and> crons (tab_at h4 4) = []"
    by (rule exI)
  with re d l n r f ab show ?thesis by (intro conjI)
qed

text \<open>
  C7, as amended.  Without an aggregator, with an aggregator that holds no tab,
  or for a path that is no directory, \<open>AnaCronTab\<close> returns no tab and
  leaves the aggregator and the store as they were.  When the aggregator holds
  a tab, the directory exists and no job of the merged view has a command that
  contains the path, it returns the seeded system tab alone, with no job.  No
  job is allocated or deleted, every tab that existed is as it was, and a job
  record differs from before at most in its user, and only if it had none:
  reading \<open>tabs.all\<close> gave it one.  If the view was cached already, no job
  record changes at all.
\<close>

theorem AnaCronTab_idle:
  "AnaCronTab env loc None h = Inr ([], None, h)
   \<and> (items a = [] \<or> \<not> os_isdir env loc \<longrightarrow> AnaCronTab env loc (Some a) h = Inr ([], Some a, h))
   \<and> (items a \<noteq> [] \<and> os_isdir env loc
        \<and> CronTabs_all env a (snd (alloc_tab UserFalse None h)) = (v, a1, h2)
        \<and> find_command v loc h2 = []
      \<longrightarrow> AnaCronTab env loc (Some a) h = Inr ([ntabs h], Some a1, h2)
          \<and> binding h2 (ntabs h) = (UserFalse, None)
          \<and> crons (tab_at h2 (ntabs h)) = []
          \<and> items a1 = items a
          \<and> njobs h2 = njobs h
          \<and> (\<forall>t<ntabs h. tab_at h2 t = tab_at h t)
          \<and> (\<forall>j. job_at h2 j = job_at h j
                 \<or> (user (job_at h j) = None
                    \<and> (\<exists>u. job_at h2 j = (job_at h j)\<lparr>user := Some u\<rparr>)))
          \<and> (cached_all a \<noteq> None \<longrightarrow> (\<forall>j. job_at h2 j = job_at h j)))"
proof -
  have 1: "AnaCronTab env loc None h = Inr ([], None, h)" by (rule AnaCronTab_noop(1))
  have 2: "items a = [] \<or> \<not> os_isdir env loc \<longrightarrow> AnaCronTab env loc (Some a) h = Inr ([], Some a, h)"
    using AnaCronTab_noop(2)[of a env loc h] by blast
  have 3: "AnaCronTab env loc (Some a) h = Inr ([ntabs h], Some a1, h2)
          \<and> binding h2 (ntabs h) = (UserFalse, None)
          \<and> crons (tab_at h2 (ntabs h)) = []
          \<and> items a1 = items a
          \<and> njobs h2 = njobs h
          \<and> (\<forall>t<ntabs h. tab_at h2 t = tab_at h t)
          \<and> (\<forall>j. job_at h2 j = job_at h j
                 \<or> (user (job_at h j) = None
                    \<and> (\<exists>u. job_at h2 j = (job_at h j)\<lparr>user := Some u\<rparr>)))
          \<and> (cached_all a \<noteq> None \<longrightarrow> (\<forall>j. job_at h2 j = job_at h j))"
    if ne: "items a \<noteq> []" and d: "os_isdir env loc"
      and r: "CronTabs_all env a (snd (alloc_tab UserFalse None h)) = (v, a1, h2)"
      and f: "find_command v loc h2 = []"
  proof -
    note n = AnaCronTab_no_template[OF ne d r f]
    have c: "cached_all a \<noteq> None \<longrightarrow> (\<forall>j. job_at h2 j = job_at h j)"
    proof
      assume "cached_all a \<noteq> None"
      then obtain v0 where "cached_all a = Some v0" by auto
      from CronTabs_all_cached[OF this, of env "snd (alloc_tab UserFalse None h)"] r
      have "h2 = snd (alloc_tab UserFalse None h)" by simp
      then show "\<forall>j. job_at h2 j = job_at h j" by simp
    qed
    show ?thesis using n c by (intro conjI allI) simp_all
  qed
  show ?thesis using 1 2 3 by (intro conjI impI) (simp_all only:, elim conjE, simp_all)
qed

theorem AnaCronTab_idle_witness:
  "\<not> os_isdir demo_env ''/etc/cron.hourly''
   \<and> AnaCronTab demo_env ''/etc/cron.hourly'' (Some (fst spool_state)) (snd spool_state)
       = Inr ([], Some (fst spool_state), snd spool_state)
   \<and> items (fst spool_viewed) \<noteq> [] \<and> os_isdir demo_env ''/etc/cron.d/''
   \<and> CronTabs_all demo_env (fst spool_viewed) (snd (alloc_tab UserFalse None (snd spool_viewed)))
       = (3, fst spool_viewed, snd (alloc_tab UserFalse None (snd spool_viewed)))
   \<and> find_command 3 ''/etc/cron.d/'' (snd (alloc_tab UserFalse None (snd spool_viewed))) = []
   \<and> cached_all (fst spool_viewed) \<noteq> None
   \<and> AnaCronTab demo_env ''/etc/cron.d/'' (Some (fst spool_viewed)) (snd spool_viewed)
       = Inr ([4], Some (fst spool_viewed), snd (alloc_tab UserFalse None (snd spool_viewed)))
   \<and> crons (tab_at (snd (alloc_tab UserFalse None (snd spool_viewed))) 4) = []
   \<and> (\<forall>j. job_at (snd (alloc_tab UserFalse None (snd spool_viewed))) j = job_at (snd spool_viewed) j)"
proof -
  let ?h = "snd spool_viewed"
  let ?h1 = "snd (alloc_tab UserFalse None ?h)"
  have d1: "\<not> os_isdir demo_env ''/etc/cron.hourly''" by (simp add: demo_env_def)
  have 1: "AnaCronTab demo_env ''/etc/cron.hourly'' (Some (fst spool_state)) (snd spool_state)
       = Inr ([], Some (fst spool_state), snd spool_state)"
    using AnaCronTab_idle[where env = demo_env and loc = "''/etc/cron.hourly''"
        and a = "fst spool_state" and h = "snd spool_state"] d1
    by blast
  have ne: "items (fst spool_viewed) \<noteq> []" and c: "cached_all (fst spool_viewed) = Some 3"
    and nt: "ntabs ?h = 4"
    by (simp_all add: spool_viewed_def)
  have d2: "os_isdir demo_env ''/etc/cron.d/''" by (simp add: demo_env_def)
  have r: "CronTabs_all demo_env (fst spool_viewed) ?h1 = (3, fst spool_viewed, ?h1)"
    using c by (rule CronTabs_all_cached)
  have f: "find_command 3 ''/etc/cron.d/'' ?h1 = []"
    by (simp add: find_command_def spool_viewed_def spool_heap_def backup_line_def)
  have cn: "cached_all (fst spool_viewed) \<noteq> None" using c by simp
  from AnaCronTab_idle[where env = demo_env and loc = "''/etc/cron.d/''"
        and a = "fst spool_viewed" and h = "?h" and v = 3 and ?a1.0 = "fst spool_viewed"
        and ?h2.0 = "?h1"] ne d2 r f cn
  have 2: "AnaCronTab demo_env ''/etc/cron.d/'' (Some (fst spool_viewed)) ?h
             = Inr ([ntabs ?h], Some (fst spool_viewed), ?h1)"
    and 3: "crons (tab_at ?h1 (ntabs ?h)) = []"
    and 4: "\<forall>j. job_at ?h1 j = job_at ?h j"
    by blast+
  from 2 3 have q2: "AnaCronTab demo_env ''/etc/cron.d/'' (Some (fst spool_viewed)) ?h
             = Inr ([4], Some (fst spool_viewed), ?h1)"
    and q3: "crons (tab_at ?h1 4) = []"
    unfolding nt by simp_all
  from d1 1 ne d2 r f cn q2 q3 4 show ?thesis by (intro conjI)
qed

text \<open>
  The claim as stated fails: in the state after the spool is added, job 0 of
  alice's tab has no user and no job mentions \<open>/etc/cron.d/\<close>;
  \<open>AnaCronTab\<close> on that directory returns the seeded tab with no job, and
  job 0 now has the user alice.
\<close>

theorem AnaCronTab_sets_users:
  "items (fst spool_state) \<noteq> [] \<and> os_isdir demo_env ''/etc/cron.d/''
   \<and> \<not> str_contains (command (job_at (snd spool_state) 0)) ''/etc/cron.d/''
   \<and> user (job_at (snd spool_state) 0) = None
   \<and> map_sum id (\<lambda>r. (fst r, crons (tab_at (snd (snd r)) 3), user (job_at (snd (snd r)) 0)))
        (AnaCronTab demo_env ''/etc/cron.d/'' (Some (fst spool_state)) (snd spool_state))
       = Inr ([3], [], Some ''alice'')"
  by (simp add: AnaCronTab_def CronTabs_all_def find_command_def
      alloc_tab_def all_tab_def all_job_def tab_append_def set_user_def user_or_unknown_def
      demo_env_def spool_state_def spool_heap_def backup_line_def)

subsection \<open>A directory that cannot be listed\<close>

lemma SystemTab_unreadable:
  "os_isdir env loc \<Longrightarrow> os_listdir env loc = Inl e \<Longrightarrow> SystemTab env loc h = Inl e"
  by (simp add: SystemTab_def)

text \<open>
  C8.  \<open>/etc/cron.d/\<close> is a directory and listing it raises \<open>OSError\<close>.
  \<open>UserSpool.listdir\<close> turns that error into the empty list; \<open>SystemTab\<close>
  calls \<open>os.listdir\<close> directly, so the error is its result, the result of
  the discovery loop and of \<open>CronTabs()\<close>: the locations after it are not
  visited.
\<close>

theorem discovery_aborts:
  "os_isdir locked_env ''/etc/cron.d/''
   \<and> os_listdir locked_env ''/etc/cron.d/'' = Inl OSError
   \<and> listdir locked_env ''/etc/cron.d/'' = Inr []
   \<and> SystemTab locked_env ''/etc/cron.d/'' empty_heap = Inl OSError
   \<and> discover locked_env KNOWN_LOCATIONS (empty_CronTabs, empty_heap) = Inl OSError
   \<and> CronTabs_call locked_env start_process = Inl OSError"
proof -
  have d: "os_isdir locked_env ''/etc/cron.d/''"
    and l: "os_listdir locked_env ''/etc/cron.d/'' = Inl OSError"
    by (simp_all add: locked_env_def demo_env_def)
  have l': "listdir locked_env ''/etc/cron.d/'' = Inr []" using l by (simp add: listdir_def)
  have s: "\<And>h. SystemTab locked_env ''/etc/cron.d/'' h = Inl OSError"
    using d l by (rule SystemTab_unreadable)
  have a1: "add locked_env UserSpoolCls ''/var/spool/cron/crontabs/'' (empty_CronTabs, empty_heap)
      = Inr spool_state"
    by (simp add: add_def construct_def UserSpool_def listdir_def generate_def get_owner_def
      spool_paths CronTab_def read_lines_def alloc_tab_def alloc_job_def tab_append_def
      locked_env_def demo_env_def empty_heap_def empty_CronTabs_def spool_state_def spool_heap_def
      append_tab_def backup_line_def fun_eq_iff)
  obtain s2 where a2: "add locked_env SystemTabCls ''/etc/crontab'' spool_state = Inr s2"
    by (simp add: add_def construct_def SystemTab_def CronTab_def read_lines_def alloc_tab_def
        locked_env_def demo_env_def spool_state_def)
  have a3: "add locked_env SystemTabCls ''/etc/cron.d/'' s2 = Inl OSError"
    by (cases s2) (simp add: add_def construct_def s)
  have disc: "discover locked_env KNOWN_LOCATIONS (empty_CronTabs, empty_heap) = Inl OSError"
    by (simp add: KNOWN_LOCATIONS_def a1 a2 a3)
  have "CronTabs_call locked_env start_process = Inl OSError"
    using disc
    by (simp add: CronTabs_call_def CronTabs_new_def new_instance_def CronTabs_init_def start_process_def
        empty_CronTabs_def)
  with d l l' s[of empty_heap] disc show ?thesis by (intro conjI)
qed

subsection \<open>The singleton\<close>

text \<open>A second call returns the first object, untouched, when that holds a tab.\<close>

lemma CronTabs_call_again:
  "cls_self w = Some i \<Longrightarrow> items (inst_at w i) \<noteq> [] \<Longrightarrow> CronTabs_call env w = Inr (i, w)"
  by (simp add: CronTabs_call_def CronTabs_new_def new_instance_def CronTabs_init_def)

text \<open>
  C9.  On the machine with no cron location the first \<open>CronTabs()\<close> returns
  object 0, which holds no tab after discovery; \<open>not cls._self\<close> is then
  true again, and the second call makes object 1 and stores it in
  \<open>cls._self\<close>.
\<close>

theorem CronTabs_second_object:
  "(case CronTabs_call bare_env start_process of
      Inl e \<Rightarrow> None
    | Inr (i, w) \<Rightarrow>
        (case CronTabs_call bare_env w of
           Inl e \<Rightarrow> None
         | Inr (i', w') \<Rightarrow> Some (i, cls_self w, items (inst_at w i), i', cls_self w')))
   = Some (0, Some 0, [], 1, Some 1)"
  by (simp add: CronTabs_call_def CronTabs_new_def new_instance_def CronTabs_init_def start_process_def
      KNOWN_LOCATIONS_def add_def construct_def UserSpool_def SystemTab_def AnaCronTab_def
      listdir_def CronTab_def read_lines_def alloc_tab_def bare_env_def demo_env_def
      empty_CronTabs_def empty_heap_def)

end
